theory Spec2Isabelle
  imports Main "HOL-Library.Word" "HOL-Library.List_Lexorder" "HOL-Library.Code_Target_Nat"
begin

unbundle bit_operations_syntax

section \<open>Host data: bytes and JavaScript strings\<close>

text \<open>
  A \<open>Uint8Array\<close> or \<open>ArrayBuffer\<close> is a list of 8-bit words. A JavaScript string is
  the list of its UTF-16 code units, each unit being the number \<open>charCodeAt\<close> reports.
\<close>

type_synonym byte = "8 word"
type_synonym bytes = "byte list"
type_synonym jsstring = "nat list"

definition str :: "string \<Rightarrow> jsstring" where
  "str s = map of_char s"

definition ascii :: "string \<Rightarrow> bytes" where
  "ascii s = map (\<lambda>c. of_nat (of_char c)) s"

subsection \<open>\<open>new TextDecoder().decode\<close>\<close>

text \<open>
  The UTF-8 decoder of the Encoding standard in replacement mode. \<open>utf8_run cp needed lo hi\<close>
  carries the code point under construction, the number of continuation bytes still
  expected and the admissible range of the next byte. A byte that breaks a sequence yields
  U+FFFD and is then read again from the initial state; so does the end of input inside a
  sequence. \<open>cp * 64 + v mod 64\<close> is \<open>(cp << 6) | (v & 0x3F)\<close>, and \<open>v mod 32\<close>,
  \<open>v mod 16\<close>, \<open>v mod 8\<close> are the masks \<open>& 0x1F\<close>, \<open>& 0xF\<close>, \<open>& 0x7\<close>.
\<close>

fun utf8_run :: "nat \<Rightarrow> nat \<Rightarrow> nat \<Rightarrow> nat \<Rightarrow> bytes \<Rightarrow> nat list" where
  "utf8_run cp 0 lo hi [] = []"
| "utf8_run cp (Suc n) lo hi [] = [0xFFFD]"
| "utf8_run cp 0 lo hi (b # bs) =
     (let v = unat b in
      if v \<le> 0x7F then v # utf8_run 0 0 0x80 0xBF bs
      else if 0xC2 \<le> v \<and> v \<le> 0xDF then utf8_run (v mod 32) 1 0x80 0xBF bs
      else if 0xE0 \<le> v \<and> v \<le> 0xEF then
        utf8_run (v mod 16) 2 (if v = 0xE0 then 0xA0 else 0x80) (if v = 0xED then 0x9F else 0xBF) bs
      else if 0xF0 \<le> v \<and> v \<le> 0xF4 then
        utf8_run (v mod 8) 3 (if v = 0xF0 then 0x90 else 0x80) (if v = 0xF4 then 0x8F else 0xBF) bs
      else 0xFFFD # utf8_run 0 0 0x80 0xBF bs)"
| "utf8_run cp (Suc n) lo hi (b # bs) =
     (let v = unat b in
      if lo \<le> v \<and> v \<le> hi then
        (if n = 0 then (cp * 64 + v mod 64) # utf8_run 0 0 0x80 0xBF bs
         else utf8_run (cp * 64 + v mod 64) n 0x80 0xBF bs)
      else 0xFFFD # utf8_run 0 0 0x80 0xBF (b # bs))"

definition utf16_units :: "nat \<Rightarrow> nat list" where
  "utf16_units cp =
     (if cp < 0x10000 then [cp]
      else [0xD800 + (cp - 0x10000) div 0x400, 0xDC00 + (cp - 0x10000) mod 0x400])"

definition strip_bom :: "bytes \<Rightarrow> bytes" where
  "strip_bom bs = (if take 3 bs = [0xEF, 0xBB, 0xBF] then drop 3 bs else bs)"

definition text_decode :: "bytes \<Rightarrow> jsstring" where
  "text_decode bs = concat (map utf16_units (utf8_run 0 0 0x80 0xBF (strip_bom bs)))"

section \<open>ToolchainLoader: the pack parser\<close>

text \<open>
  \<open>parseToolchain\<close> throws two errors of its own (bad magic, unsupported version); every
  other failure is an exception of a host built-in: a \<open>RangeError\<close> of \<open>DataView\<close> or of
  the \<open>Uint8Array\<close> constructor on a read outside the buffer, a \<open>SyntaxError\<close> of
  \<open>JSON.parse\<close>.
\<close>

datatype pack_error = BadMagic | UnsupportedVersion nat | RangeError | SyntaxError

fun is_format_error :: "pack_error \<Rightarrow> bool" where
  "is_format_error BadMagic = True"
| "is_format_error (UnsupportedVersion v) = True"
| "is_format_error RangeError = False"
| "is_format_error SyntaxError = False"

definition bnd :: "'e + 'a \<Rightarrow> ('a \<Rightarrow> 'e + 'b) \<Rightarrow> 'e + 'b" where
  "bnd m f = (case m of Inl e \<Rightarrow> Inl e | Inr x \<Rightarrow> f x)"

fun le_nat :: "bytes \<Rightarrow> nat" where
  "le_nat [] = 0"
| "le_nat (b # bs) = unat b + 256 * le_nat bs"

subsection \<open>The pack buffer\<close>

text \<open>
  \<open>this.packData\<close> is an \<open>ArrayBuffer\<close>. The byte length of an \<open>ArrayBuffer\<close> is an index
  of the language, at most \<open>2^53 - 1\<close>: the host creates no longer one. \<open>to_buffer\<close> is the
  buffer holding given bytes (the first \<open>2^53 - 1\<close> of them), \<open>set_byte\<close> the buffer with
  one byte replaced.
\<close>

typedef buffer = "{xs :: byte list. length xs < 2 ^ 53}"
  morphisms bytes_of Abs_buffer
  by (rule exI[of _ "[]"]) simp

definition to_buffer :: "bytes \<Rightarrow> buffer" where
  "to_buffer xs = Abs_buffer (take (2 ^ 53 - 1) xs)"

definition set_byte :: "buffer \<Rightarrow> nat \<Rightarrow> byte \<Rightarrow> buffer" where
  "set_byte b i v = Abs_buffer ((bytes_of b)[i := v])"

definition byteLength :: "buffer \<Rightarrow> nat" where
  "byteLength b = length (bytes_of b)"

subsection \<open>Numbers\<close>

text \<open>
  A JavaScript number is a double. Every non-negative integer below \<open>2^53\<close> is one; from
  \<open>2^53\<close> on a double has 53 significant bits, so the doubles around an integer of
  \<open>53 + e\<close> bits are the multiples of \<open>2^e\<close>. \<open>Number(x)\<close> of a \<open>BigInt\<close> is the double
  nearest to \<open>x\<close>, the one with the even significand when \<open>x\<close> lies half way; the sum of
  two numbers is the double nearest to the exact sum.
\<close>

fun bit_length :: "nat \<Rightarrow> nat" where
  "bit_length n = (if n = 0 then 0 else Suc (bit_length (n div 2)))"

declare bit_length.simps [simp del]

definition to_number :: "nat \<Rightarrow> nat" where
  "to_number n =
     (if n < 2 ^ 53 then n
      else let e = bit_length n - 53; q = n div 2 ^ e; r = n mod 2 ^ e
           in if 2 * r < 2 ^ e \<or> (2 * r = 2 ^ e \<and> even q) then q * 2 ^ e else (q + 1) * 2 ^ e)"

definition number_add :: "nat \<Rightarrow> nat \<Rightarrow> nat" where
  "number_add a b = to_number (a + b)"

subsection \<open>Reads\<close>

text \<open>\<open>view.getUint16/getUint32/getBigUint64(off, true)\<close>: \<open>n\<close> bytes, little-endian.\<close>

definition getUint :: "nat \<Rightarrow> bytes \<Rightarrow> nat \<Rightarrow> pack_error + nat" where
  "getUint n buf off =
     (if off + n \<le> length buf then Inr (le_nat (take n (drop off buf))) else Inl RangeError)"

text \<open>\<open>new Uint8Array(buf, off, len)\<close>: a view, refused when it leaves the buffer.\<close>

definition u8view :: "bytes \<Rightarrow> nat \<Rightarrow> nat \<Rightarrow> pack_error + bytes" where
  "u8view buf off len =
     (if off + len \<le> length buf then Inr (take len (drop off buf)) else Inl RangeError)"

text \<open>\<open>buf.slice(begin, end)\<close> of an \<open>ArrayBuffer\<close>: both ends are clamped to the length.\<close>

definition buffer_slice :: "bytes \<Rightarrow> nat \<Rightarrow> nat \<Rightarrow> bytes" where
  "buffer_slice buf b e =
     (let first = min b (length buf); final = min e (length buf)
      in take (final - first) (drop first buf))"

subsection \<open>\<open>parseToolchain\<close> and the accessors\<close>

record pkg_entry =
  offset :: nat
  size_bytes :: nat

record 'j toolchain =
  packData :: buffer
  compilerWasm :: bytes
  linkerWasm :: bytes
  packageNames :: 'j
  packageIndex :: "jsstring \<rightharpoonup> pkg_entry"
  packageDataStart :: nat

text \<open>
  The loop over the \<open>packageCount\<close> index entries. \<open>indexPos\<close> is a number, advanced by
  \<open>+=\<close>; \<open>pkgOffset\<close> is \<open>Number(view.getBigUint64(indexPos, true))\<close>, and the offset
  recorded is the sum \<open>this.packageDataStart + pkgOffset\<close> of two numbers: both are
  rounded from \<open>2^53\<close> on.
\<close>

fun read_entries ::
    "bytes \<Rightarrow> nat \<Rightarrow> nat \<Rightarrow> nat \<Rightarrow> (jsstring \<rightharpoonup> pkg_entry) \<Rightarrow> pack_error + (jsstring \<rightharpoonup> pkg_entry)" where
  "read_entries buf ds 0 indexPos idx = Inr idx"
| "read_entries buf ds (Suc n) indexPos idx =
     bnd (getUint 2 buf indexPos) (\<lambda>nameLen.
     bnd (u8view buf (number_add indexPos 2) nameLen) (\<lambda>nameBytes.
     bnd (getUint 8 buf (number_add (number_add indexPos 2) nameLen)) (\<lambda>pkgOffset.
     bnd (getUint 4 buf (number_add (number_add (number_add indexPos 2) nameLen) 8)) (\<lambda>pkgSize.
       read_entries buf ds n
         (number_add (number_add (number_add (number_add indexPos 2) nameLen) 8) 4)
         (idx(text_decode nameBytes \<mapsto>
            \<lparr>offset = number_add ds (to_number pkgOffset), size_bytes = pkgSize\<rparr>))))))"

text \<open>
  \<open>ToolchainLoader.parseToolchain\<close> (\<open>GoScript._parseToolchainPack\<close> of the SDK is the same
  code). \<open>JSON.parse\<close> is the host's: \<open>json_parse\<close> gives \<open>None\<close> where it throws. The
  offsets before the index are sums of at most three 32-bit lengths and a few small
  constants: they stay below \<open>2^53\<close>, where the sum of two numbers is the exact sum.
  \<open>indexOffset\<close> is \<open>Number(view.getBigUint64(offset, true))\<close>.
\<close>

definition parseToolchain :: "(jsstring \<Rightarrow> 'j option) \<Rightarrow> buffer \<Rightarrow> pack_error + 'j toolchain" where
  "parseToolchain json_parse pack =
     (let buf = bytes_of pack in
     bnd (u8view buf 0 8) (\<lambda>magicBytes.
     if text_decode magicBytes \<noteq> str ''GOSCRIPT'' then Inl BadMagic else
     bnd (getUint 4 buf 8) (\<lambda>version.
     if version \<noteq> 2 then Inl (UnsupportedVersion version) else
     bnd (getUint 4 buf 12) (\<lambda>compilerSize.
     let compiler = buffer_slice buf 16 (16 + compilerSize);
         off1 = 16 + compilerSize in
     bnd (getUint 4 buf off1) (\<lambda>linkerSize.
     let linker = buffer_slice buf (off1 + 4) (off1 + 4 + linkerSize);
         off2 = off1 + 4 + linkerSize in
     bnd (getUint 4 buf off2) (\<lambda>indexSize.
     bnd (u8view buf (off2 + 4) indexSize) (\<lambda>indexBytes.
     case json_parse (text_decode indexBytes) of
       None \<Rightarrow> Inl SyntaxError
     | Some names \<Rightarrow>
     let off3 = off2 + 4 + indexSize in
     bnd (getUint 4 buf off3) (\<lambda>packageCount.
     bnd (getUint 8 buf (off3 + 4)) (\<lambda>indexOffset.
     let dataStart = off3 + 4 + 8 in
     bnd (read_entries buf dataStart packageCount (to_number indexOffset) Map.empty) (\<lambda>idx.
       Inr \<lparr>packData = pack, compilerWasm = compiler, linkerWasm = linker,
            packageNames = names, packageIndex = idx, packageDataStart = dataStart\<rparr>))))))))))"



text \<open>\<open>getPackage\<close>: \<open>null\<close> for an unknown name, else a view, which the host may refuse.\<close>

definition getPackage :: "'j toolchain \<Rightarrow> jsstring \<Rightarrow> pack_error + bytes option" where
  "getPackage t name =
     (case packageIndex t name of
        None \<Rightarrow> Inr None
      | Some entry \<Rightarrow>
          bnd (u8view (bytes_of (packData t)) (offset entry) (size_bytes entry)) (\<lambda>v. Inr (Some v)))"

subsection \<open>The ranges a pack declares\<close>

text \<open>
  The layout of the pack format, as the packing script writes it, read directly off the
  bytes: magic (8), version (4),
  \<open>L1\<close> (4) and the compiler blob, \<open>L2\<close> (4) and the linker blob, \<open>L3\<close> (4) and the JSON
  name list, the package count (4), the index offset (8), the package data region, and at
  the index offset the entries \<open>(u16 nameLen, name, u64 dataOffset, u32 dataSize)\<close>.
\<close>

definition byte_range :: "buffer \<Rightarrow> nat \<Rightarrow> nat \<Rightarrow> bytes" where
  "byte_range pack off len = take len (drop off (bytes_of pack))"

definition uint_at :: "nat \<Rightarrow> buffer \<Rightarrow> nat \<Rightarrow> nat" where
  "uint_at n pack off = le_nat (byte_range pack off n)"

definition declared_compiler_size :: "buffer \<Rightarrow> nat" where
  "declared_compiler_size pack = uint_at 4 pack 12"

definition declared_linker_at :: "buffer \<Rightarrow> nat" where
  "declared_linker_at pack = 16 + declared_compiler_size pack"

definition declared_linker_size :: "buffer \<Rightarrow> nat" where
  "declared_linker_size pack = uint_at 4 pack (declared_linker_at pack)"

definition declared_names_at :: "buffer \<Rightarrow> nat" where
  "declared_names_at pack = declared_linker_at pack + 4 + declared_linker_size pack"

definition declared_names_size :: "buffer \<Rightarrow> nat" where
  "declared_names_size pack = uint_at 4 pack (declared_names_at pack)"

definition declared_count_at :: "buffer \<Rightarrow> nat" where
  "declared_count_at pack = declared_names_at pack + 4 + declared_names_size pack"

definition declared_count :: "buffer \<Rightarrow> nat" where
  "declared_count pack = uint_at 4 pack (declared_count_at pack)"

definition declared_index_offset :: "buffer \<Rightarrow> nat" where
  "declared_index_offset pack = uint_at 8 pack (declared_count_at pack + 4)"

definition declared_data_start :: "buffer \<Rightarrow> nat" where
  "declared_data_start pack = declared_count_at pack + 4 + 8"

fun declared_entries :: "buffer \<Rightarrow> nat \<Rightarrow> nat \<Rightarrow> (bytes \<times> nat \<times> nat) list" where
  "declared_entries pack pos 0 = []"
| "declared_entries pack pos (Suc n) =
     (let nameLen = uint_at 2 pack pos in
      (byte_range pack (pos + 2) nameLen,
       uint_at 8 pack (pos + 2 + nameLen),
       uint_at 4 pack (pos + 2 + nameLen + 8))
      # declared_entries pack (pos + 2 + nameLen + 8 + 4) n)"

definition declared_packages :: "buffer \<Rightarrow> (bytes \<times> nat \<times> nat) list" where
  "declared_packages pack = declared_entries pack (declared_index_offset pack) (declared_count pack)"

text \<open>The sections before the package data fit the buffer.\<close>

definition sections_fit :: "buffer \<Rightarrow> bool" where
  "sections_fit pack \<longleftrightarrow>
     16 + declared_compiler_size pack \<le> byteLength pack
   \<and> declared_linker_at pack + 4 + declared_linker_size pack \<le> byteLength pack
   \<and> declared_names_at pack + 4 + declared_names_size pack \<le> byteLength pack"

text \<open>
  The index a list of declared entries stands for: names decoded, offsets converted to
  numbers and added to the start of the package data.
\<close>

definition index_of :: "nat \<Rightarrow> (bytes \<times> nat \<times> nat) list \<Rightarrow> (jsstring \<times> pkg_entry) list" where
  "index_of ds es =
     map (\<lambda>(nm, off, sz). (text_decode nm,
            \<lparr>offset = number_add ds (to_number off), size_bytes = sz\<rparr>)) es"

text \<open>A small pack: one-byte compiler and linker, the name list \<open>[]\<close>, one package \<open>a\<close>
  of \<open>sz\<close> declared bytes at the data offset written in the eight bytes \<open>at\<close>, two bytes of
  package data.\<close>

definition pack_bytes :: "bytes \<Rightarrow> byte \<Rightarrow> bytes" where
  "pack_bytes at sz =
     ascii ''GOSCRIPT'' @ [2, 0, 0, 0]
     @ [1, 0, 0, 0] @ [0xAA]
     @ [1, 0, 0, 0] @ [0xBB]
     @ [2, 0, 0, 0] @ ascii ''[]''
     @ [1, 0, 0, 0] @ [42, 0, 0, 0, 0, 0, 0, 0]
     @ [0xCC, 0xDD]
     @ [1, 0] @ ascii ''a'' @ at @ [sz, 0, 0, 0]"

text \<open>The package at data offset 0.\<close>

definition sample_pack :: "byte \<Rightarrow> buffer" where
  "sample_pack sz = to_buffer (pack_bytes [0, 0, 0, 0, 0, 0, 0, 0] sz)"

definition sample_toolchain :: "byte \<Rightarrow> jsstring toolchain" where
  "sample_toolchain sz =
     \<lparr>packData = sample_pack sz, compilerWasm = [0xAA], linkerWasm = [0xBB],
      packageNames = str ''[]'',
      packageIndex = [str ''a'' \<mapsto> \<lparr>offset = 40, size_bytes = unat sz\<rparr>],
      packageDataStart = 40\<rparr>"

text \<open>The package at data offset \<open>2^53 + 1\<close>, which is no double.\<close>

definition far_pack :: buffer where
  "far_pack = to_buffer (pack_bytes [1, 0, 0, 0, 0, 0, 0x20, 0] 2)"

definition far_toolchain :: "jsstring toolchain" where
  "far_toolchain =
     \<lparr>packData = far_pack, compilerWasm = [0xAA], linkerWasm = [0xBB],
      packageNames = str ''[]'',
      packageIndex = [str ''a'' \<mapsto> \<lparr>offset = 9007199254741032, size_bytes = 2\<rparr>],
      packageDataStart = 40\<rparr>"

text \<open>A pack cut short: the compiler section declares nine bytes, one follows.\<close>

definition truncated_pack :: buffer where
  "truncated_pack = to_buffer (ascii ''GOSCRIPT'' @ [2, 0, 0, 0] @ [9, 0, 0, 0] @ [0xAA])"

text \<open>A pack with a wrong version number, and nothing else.\<close>

definition version3_pack :: buffer where
  "version3_pack = to_buffer (ascii ''GOSCRIPT'' @ [3, 0, 0, 0])"

text \<open>Seven bytes: the magic without its last letter.\<close>

definition short_pack :: buffer where
  "short_pack = to_buffer (ascii ''GOSCRIP'')"

section \<open>String operations of the host\<close>

definition slash :: nat where
  "slash = 47"

definition startsWith :: "jsstring \<Rightarrow> jsstring \<Rightarrow> bool" where
  "startsWith s p = (take (length p) s = p)"


text \<open>\<open>s.split('/')\<close>: the pieces between separators; the empty string gives one empty piece.\<close>

fun split :: "nat \<Rightarrow> jsstring \<Rightarrow> jsstring list" where
  "split sep [] = [[]]"
| "split sep (c # cs) =
     (if c = sep then [] # split sep cs
      else (case split sep cs of [] \<Rightarrow> [[c]] | x # xs \<Rightarrow> (c # x) # xs))"

text \<open>\<open>parts.join('/')\<close>.\<close>

fun join :: "jsstring \<Rightarrow> jsstring list \<Rightarrow> jsstring" where
  "join sep [] = []"
| "join sep [x] = x"
| "join sep (x # y # ys) = x @ sep @ join sep (y # ys)"

text \<open>\<open>path.replace(/\<bsol>/+/g, '/')\<close>: every run of slashes becomes one slash.\<close>

fun collapse_slashes :: "jsstring \<Rightarrow> jsstring" where
  "collapse_slashes [] = []"
| "collapse_slashes [c] = [c]"
| "collapse_slashes (c # d # cs) =
     (if c = slash \<and> d = slash then collapse_slashes (d # cs)
      else c # collapse_slashes (d # cs))"




definition is_lead_surrogate :: "nat \<Rightarrow> bool" where
  "is_lead_surrogate c \<longleftrightarrow> 0xD800 \<le> c \<and> c \<le> 0xDBFF"

definition is_trail_surrogate :: "nat \<Rightarrow> bool" where
  "is_trail_surrogate c \<longleftrightarrow> 0xDC00 \<le> c \<and> c \<le> 0xDFFF"


text \<open>A path without two slashes in a row.\<close>

fun no_double_slash :: "jsstring \<Rightarrow> bool" where
  "no_double_slash (c # d # cs) = (\<not> (c = slash \<and> d = slash) \<and> no_double_slash (d # cs))"
| "no_double_slash cs = True"

section \<open>The in-memory filesystem\<close>

text \<open>
  A file holds what was written: a string or a byte array. Both filesystem classes keep a
  map of files, a set of directories and a working directory.
\<close>

datatype content = Text jsstring | Bytes bytes

record vfs =
  files :: "jsstring \<rightharpoonup> content"
  directories :: "jsstring set"
  workingDirectory :: jsstring

datatype fs_error = NotFound jsstring | EBADF | ENOENT

subsection \<open>\<open>VirtualFileSystem\<close> (the class the compilation manager and the script shim use)\<close>

definition empty_vfs :: vfs where
  "empty_vfs = \<lparr>files = Map.empty, directories = {}, workingDirectory = str ''/''\<rparr>"

definition normalizePath :: "jsstring \<Rightarrow> jsstring" where
  "normalizePath path =
     collapse_slashes (if \<not> startsWith path (str ''/'') then str ''/'' @ path else path)"

text \<open>\<open>parts.join('/') || '/'\<close>: the empty string is falsy.\<close>

definition getDirectory :: "jsstring \<Rightarrow> jsstring" where
  "getDirectory filePath =
     (let parts = butlast (split slash filePath); d = join (str ''/'') parts
      in if d = [] then str ''/'' else d)"

definition ensureDirectoryExists :: "vfs \<Rightarrow> jsstring \<Rightarrow> vfs" where
  "ensureDirectoryExists v dirPath =
     (if dirPath \<noteq> str ''/'' then v\<lparr>directories := insert dirPath (directories v)\<rparr> else v)"

definition writeFile :: "vfs \<Rightarrow> jsstring \<Rightarrow> content \<Rightarrow> vfs" where
  "writeFile v path c =
     (let normalizedPath = normalizePath path
      in ensureDirectoryExists (v\<lparr>files := (files v)(normalizedPath \<mapsto> c)\<rparr>)
           (getDirectory normalizedPath))"

definition readFile :: "vfs \<Rightarrow> jsstring \<Rightarrow> fs_error + content" where
  "readFile v path =
     (let normalizedPath = normalizePath path
      in case files v normalizedPath of
           None \<Rightarrow> Inl (NotFound normalizedPath)
         | Some c \<Rightarrow> Inr c)"

definition exists :: "vfs \<Rightarrow> jsstring \<Rightarrow> bool" where
  "exists v path = (files v (normalizePath path) \<noteq> None)"

definition mkdir :: "vfs \<Rightarrow> jsstring \<Rightarrow> vfs" where
  "mkdir v path = v\<lparr>directories := insert (normalizePath path) (directories v)\<rparr>"

subsection \<open>\<open>VirtualFS\<close> (the class of the SDK)\<close>

definition sdk_empty_vfs :: vfs where
  "sdk_empty_vfs = \<lparr>files = Map.empty, directories = {str ''/''}, workingDirectory = str ''/''\<rparr>"

text \<open>The loop over the parts: \<open>..\<close> pops (a no-op on the empty array), anything else is pushed.\<close>

fun resolve_parts :: "jsstring list \<Rightarrow> jsstring list \<Rightarrow> jsstring list" where
  "resolve_parts resolved [] = resolved"
| "resolve_parts resolved (part # parts) =
     (if part = str ''..'' then resolve_parts (butlast resolved) parts
      else resolve_parts (resolved @ [part]) parts)"

definition sdk_normalize :: "jsstring \<Rightarrow> jsstring" where
  "sdk_normalize path =
     (let path1 = (if \<not> startsWith path (str ''/'') then str ''/'' @ path else path);
          parts = filter (\<lambda>p. p \<noteq> [] \<and> p \<noteq> str ''.'') (split slash path1)
      in str ''/'' @ join (str ''/'') (resolve_parts [] parts))"

definition sdk_dirname :: "jsstring \<Rightarrow> jsstring" where
  "sdk_dirname path =
     (let d = join (str ''/'') (butlast (split slash path)) in if d = [] then str ''/'' else d)"

text \<open>
  \<open>_ensureDir\<close> climbs from a directory to the root. The recursion is on the number of
  pieces of the path; a path that does not shrink under \<open>_dirname\<close> stops it.
\<close>

function sdk_ensureDir :: "vfs \<Rightarrow> jsstring \<Rightarrow> vfs" where
  "sdk_ensureDir v path =
     (if path \<noteq> [] \<and> path \<noteq> str ''/'' \<and> length (sdk_dirname path) < length path
      then sdk_ensureDir (v\<lparr>directories := insert path (directories v)\<rparr>) (sdk_dirname path)
      else if path \<noteq> [] \<and> path \<noteq> str ''/''
      then v\<lparr>directories := insert path (directories v)\<rparr>
      else v)"
  by pat_completeness auto
termination
  by (relation "measure (\<lambda>(v, path). length path)") auto

declare sdk_ensureDir.simps [simp del]

definition sdk_writeFile :: "vfs \<Rightarrow> jsstring \<Rightarrow> content \<Rightarrow> vfs" where
  "sdk_writeFile v path c =
     (let normalized = sdk_normalize path
      in sdk_ensureDir (v\<lparr>files := (files v)(normalized \<mapsto> c)\<rparr>) (sdk_dirname normalized))"

definition sdk_readFile :: "vfs \<Rightarrow> jsstring \<Rightarrow> fs_error + content" where
  "sdk_readFile v path =
     (let normalized = sdk_normalize path
      in case files v normalized of
           None \<Rightarrow> Inl (NotFound normalized)
         | Some c \<Rightarrow> Inr c)"

definition sdk_exists :: "vfs \<Rightarrow> jsstring \<Rightarrow> bool" where
  "sdk_exists v path = (files v (sdk_normalize path) \<noteq> None)"

definition sdk_mkdir :: "vfs \<Rightarrow> jsstring \<Rightarrow> vfs" where
  "sdk_mkdir v path = v\<lparr>directories := insert (sdk_normalize path) (directories v)\<rparr>"

section \<open>The filesystem shim\<close>

text \<open>
  \<open>FSPolyfill\<close> keeps a table of open files and the next descriptor to hand out (100 at the
  start). The host output sink is \<open>window.addConsoleOutput\<close> for the script shim and the
  \<open>outputCallback\<close> for the SDK shim: \<open>sink\<close> is \<open>None\<close> when none is installed, else the
  texts it has received; \<open>console\<close> is what went to \<open>console.log\<close>. Byte arrays are values
  here: where the script shim shares one array between the table and the filesystem, the
  model holds two equal copies.
\<close>

record fd_entry =
  path :: jsstring
  flags :: "32 word"
  content :: bytes
  position :: nat

record shim =
  shim_vfs :: vfs
  fds :: "nat \<rightharpoonup> fd_entry"
  nextFd :: nat
  sink :: "jsstring list option"
  console :: "jsstring list"




subsection \<open>The script shim (\<open>fs-polyfill.js\<close>)\<close>








definition fs_close :: "shim \<Rightarrow> nat \<Rightarrow> shim" where
  "fs_close s fd = s\<lparr>fds := (fds s)(fd := None)\<rparr>"

subsection \<open>The SDK shim (\<open>FSPolyfill\<close> of \<open>sdk/goscript.js\<close>)\<close>










section \<open>CacheManager: the source hash\<close>

text \<open>
  \<open>generateSourceHash\<close> hashes \<open>JSON.stringify(sourceFiles, Object.keys(sourceFiles).sort())\<close>.
  The source files are an object from file names to source texts: an association list with
  distinct keys, in the object's own key order.
\<close>

type_synonym source_files = "(jsstring \<times> jsstring) list"

definition object_keys :: "source_files \<Rightarrow> jsstring list" where
  "object_keys obj = map fst obj"

subsection \<open>\<open>JSON.stringify\<close> with an array of allowed keys\<close>

definition hex_digit :: "nat \<Rightarrow> nat" where
  "hex_digit d = (if d < 10 then 48 + d else 87 + d)"

definition unicode_escape :: "nat \<Rightarrow> jsstring" where
  "unicode_escape c =
     [92, 117] @ map hex_digit [c div 4096 mod 16, c div 256 mod 16, c div 16 mod 16, c mod 16]"

text \<open>One code unit that is not a surrogate: the short escapes, \<open>\<bsol>u00XX\<close> below U+0020.\<close>

definition quote_unit :: "nat \<Rightarrow> jsstring" where
  "quote_unit c =
     (if c = 8 then [92, 98] else if c = 9 then [92, 116] else if c = 10 then [92, 110]
      else if c = 12 then [92, 102] else if c = 13 then [92, 114]
      else if c = 34 then [92, 34] else if c = 92 then [92, 92]
      else if c < 32 then unicode_escape c else [c])"

text \<open>A surrogate pair is copied; a surrogate without its partner is escaped.\<close>

fun quote_body :: "jsstring \<Rightarrow> jsstring" where
  "quote_body [] = []"
| "quote_body [c] =
     (if is_lead_surrogate c \<or> is_trail_surrogate c then unicode_escape c else quote_unit c)"
| "quote_body (c # d # cs) =
     (if is_lead_surrogate c then
        (if is_trail_surrogate d then c # d # quote_body cs
         else unicode_escape c @ quote_body (d # cs))
      else if is_trail_surrogate c then unicode_escape c @ quote_body (d # cs)
      else quote_unit c @ quote_body (d # cs))"

definition quote_json :: "jsstring \<Rightarrow> jsstring" where
  "quote_json s = [34] @ quote_body s @ [34]"

text \<open>The property list built from the array: each key once, at its first place.\<close>

fun property_list :: "jsstring list \<Rightarrow> jsstring list \<Rightarrow> jsstring list" where
  "property_list acc [] = acc"
| "property_list acc (k # ks) = property_list (if k \<in> set acc then acc else acc @ [k]) ks"

definition json_member :: "source_files \<Rightarrow> jsstring \<Rightarrow> jsstring option" where
  "json_member obj k = map_option (\<lambda>v. quote_json k @ [58] @ quote_json v) (map_of obj k)"

definition json_stringify :: "source_files \<Rightarrow> jsstring list \<Rightarrow> jsstring" where
  "json_stringify obj allowed =
     (let partial = List.map_filter (json_member obj) (property_list [] allowed)
      in if partial = [] then str ''{}'' else [123] @ join [44] partial @ [125])"

text \<open>The text that is hashed.\<close>

definition canonical_text :: "source_files \<Rightarrow> jsstring" where
  "canonical_text sourceFiles = json_stringify sourceFiles (sort (object_keys sourceFiles))"

subsection \<open>\<open>simpleHash\<close>\<close>

text \<open>
  \<open>hash = ((hash << 5) - hash) + char; hash = hash & hash\<close> keeps a 32-bit integer;
  \<open>Math.abs(hash).toString(36)\<close> renders its absolute value in base 36.
\<close>

definition hash_step :: "32 word \<Rightarrow> nat \<Rightarrow> 32 word" where
  "hash_step h c = (push_bit 5 h - h) + of_nat c"

definition digit36 :: "nat \<Rightarrow> nat" where
  "digit36 d = (if d < 10 then 48 + d else 87 + d)"

fun to_base36 :: "nat \<Rightarrow> jsstring" where
  "to_base36 n = (if n < 36 then [digit36 n] else to_base36 (n div 36) @ [digit36 (n mod 36)])"

declare to_base36.simps [simp del]

definition simpleHash :: "jsstring \<Rightarrow> jsstring" where
  "simpleHash s = to_base36 (nat \<bar>sint (foldl hash_step 0 s)\<bar>)"

definition generateSourceHash :: "source_files \<Rightarrow> jsstring" where
  "generateSourceHash sourceFiles = simpleHash (canonical_text sourceFiles)"

text \<open>The JSON text of a list of members, in the order given.\<close>

definition json_object_text :: "source_files \<Rightarrow> jsstring" where
  "json_object_text members =
     (if members = [] then str ''{}''
      else [123] @ join [44] (map (\<lambda>(k, v). quote_json k @ [58] @ quote_json v) members) @ [125])"

section \<open>CompilationManager: the build driver\<close>

text \<open>
  What the driver takes from outside is gathered in an environment. \<open>toolchain_load\<close> is
  the effect of \<open>loadCompiler\<close> (fetching and parsing the pack or the separate binaries,
  patching the global \<open>fs\<close>, copying the archives into the filesystem; with its fallbacks
  it never throws and instantiates no module) on the filesystem and on the compiler and
  linker bytes. \<open>go_run\<close> is \<open>WebAssembly.instantiate\<close> followed by \<open>go.run\<close> for a module
  and an argument vector: the filesystem it leaves and whether it returned without
  throwing. \<open>random_bytes\<close> are the 2048 bytes \<open>generateMockWasm\<close> draws, \<open>build_config\<close> and
  \<open>metadata_of\<close> stand for \<open>JSON.stringify(generateBuildConfig())\<close> and
  \<open>generateMetadata()\<close>, which read the clock and the filesystem.
\<close>

record metadata =
  compilationTime :: nat
  goFileCount :: nat
  totalSize :: nat

record env =
  toolchain_load :: "vfs \<Rightarrow> bytes option \<Rightarrow> bytes option \<Rightarrow> vfs \<times> bytes option \<times> bytes option"
  go_run :: "bytes \<Rightarrow> jsstring list \<Rightarrow> vfs \<Rightarrow> vfs \<times> bool"
  random_bytes :: bytes
  build_config :: "vfs \<Rightarrow> jsstring"
  metadata_of :: "vfs \<Rightarrow> metadata"
  now :: nat

datatype status = Idle | Compiling | Complete | Failed | Cancelled

datatype event =
    Progress nat jsstring
  | StageUpdate nat jsstring
  | ErrorEvent jsstring
  | CompleteEvent bytes metadata

record cached =
  wasmBinary :: bytes
  cached_metadata :: metadata
  timestamp :: nat

text \<open>
  The state of the manager with its collaborators: the filesystem, the \<open>compiledWasm\<close>
  store of the cache manager, the number of toolchain modules instantiated so far and the
  events emitted so far. \<open>Failed\<close> is the status \<open>'error'\<close>.
\<close>

record cm =
  status :: status
  cm_vfs :: vfs
  compiledWasm :: "jsstring \<rightharpoonup> cached"
  compileWasmBytes :: "bytes option"
  linkWasmBytes :: "bytes option"
  compilerLoaded :: bool
  filesToCompile :: source_files
  instantiated :: nat
  events :: "event list"

datatype cm_error = InvalidWasm

definition emit :: "event \<Rightarrow> cm \<Rightarrow> cm" where
  "emit e s = s\<lparr>events := events s @ [e]\<rparr>"

definition loadCompiler :: "env \<Rightarrow> cm \<Rightarrow> cm" where
  "loadCompiler en s =
     (case toolchain_load en (cm_vfs s) (compileWasmBytes s) (linkWasmBytes s) of
        (v, c, l) \<Rightarrow> s\<lparr>cm_vfs := v, compileWasmBytes := c, linkWasmBytes := l, compilerLoaded := True\<rparr>)"

text \<open>\<open>cacheManager.getCachedWasm\<close> and \<open>cacheCompiledWasm\<close>: the key is \<open>wasm_\<close> and the hash.\<close>

definition cache_key :: "jsstring \<Rightarrow> jsstring" where
  "cache_key sourceHash = str ''wasm_'' @ sourceHash"

definition getCachedWasm :: "cm \<Rightarrow> jsstring \<Rightarrow> cached option" where
  "getCachedWasm s sourceHash = compiledWasm s (cache_key sourceHash)"

definition cacheCompiledWasm :: "env \<Rightarrow> cm \<Rightarrow> jsstring \<Rightarrow> bytes \<Rightarrow> metadata \<Rightarrow> cm" where
  "cacheCompiledWasm en s sourceHash w md =
     s\<lparr>compiledWasm := (compiledWasm s)(cache_key sourceHash \<mapsto>
          \<lparr>wasmBinary = w, cached_metadata = md, timestamp = now en\<rparr>)\<rparr>"

definition loadGoSources :: "vfs \<Rightarrow> source_files \<Rightarrow> vfs" where
  "loadGoSources v sourceFiles =
     (let v1 = foldl (\<lambda>v (filePath, c). writeFile v filePath (Text c)) v sourceFiles
      in mkdir (mkdir (mkdir v1 (str ''/src'')) (str ''/pkg'')) (str ''/bin''))"

definition setupBuildEnvironment :: "env \<Rightarrow> vfs \<Rightarrow> vfs" where
  "setupBuildEnvironment en v =
     (let v1 = mkdir (mkdir (mkdir v (str ''/tmp'')) (str ''/build'')) (str ''/output'')
      in writeFile v1 (str ''/build/config.json'') (Text (build_config en v1)))"

definition wasm_header :: bytes where
  "wasm_header = [0x00, 0x61, 0x73, 0x6d, 0x01, 0x00, 0x00, 0x00]"

definition generateMockWasm :: "env \<Rightarrow> bytes" where
  "generateMockWasm en = wasm_header @ random_bytes en"

definition validateWasmBinary :: "bytes \<Rightarrow> bool" where
  "validateWasmBinary w =
     (if length w < 8 then False
      else w ! 0 = 0x00 \<and> w ! 1 = 0x61 \<and> w ! 2 = 0x73 \<and> w ! 3 = 0x6d)"

text \<open>
  \<open>runGoCompiler\<close>; \<open>None\<close> where it throws. When \<open>/tmp/main.wasm\<close> holds a string,
  \<open>wasm.buffer\<close> is undefined, and the use of its \<open>byteLength\<close> right after the call throws
  inside the same \<open>try\<close>: \<open>read_output\<close> gives \<open>None\<close> there too.
\<close>

definition compile_argv :: "jsstring list \<Rightarrow> jsstring list" where
  "compile_argv tempFiles =
     [str ''compile'', str ''-o'', str ''/tmp/main.o'', str ''-p'', str ''main'', str ''-complete'']
     @ tempFiles"

definition link_argv :: "jsstring list" where
  "link_argv = [str ''link'', str ''-o'', str ''/tmp/main.wasm'', str ''-L'', str ''/pkg/js_wasm'',
                str ''/tmp/main.o'']"

definition read_output :: "vfs \<Rightarrow> bytes option" where
  "read_output v =
     (case readFile v (str ''/tmp/main.wasm'') of
        Inr (Bytes w) \<Rightarrow> Some w
      | _ \<Rightarrow> None)"

definition runGoCompiler :: "env \<Rightarrow> bytes \<Rightarrow> bytes \<Rightarrow> cm \<Rightarrow> bytes option \<times> cm" where
  "runGoCompiler en compiler linker s =
     (if filesToCompile s = [] then (None, s)
      else
        let v1 = foldl (\<lambda>v (filename, c). writeFile v (str ''/tmp/'' @ filename) (Text c))
                   (cm_vfs s) (filesToCompile s);
            tempFiles = map (\<lambda>(filename, c). str ''/tmp/'' @ filename) (filesToCompile s);
            (v2, ok1) = go_run en compiler (compile_argv tempFiles) v1;
            s2 = s\<lparr>cm_vfs := v2, instantiated := instantiated s + 1\<rparr>
        in if \<not> ok1 \<or> \<not> exists v2 (str ''/tmp/main.o'') then (None, s2)
           else
             let (v3, ok2) = go_run en linker link_argv v2;
                 s3 = s2\<lparr>cm_vfs := v3, instantiated := instantiated s2 + 1\<rparr>
             in if \<not> ok2 \<or> \<not> exists v3 (str ''/tmp/main.wasm'') then (None, s3)
                else (read_output v3, s3))"

text \<open>\<open>compileToWasm\<close>: the real toolchain when both modules are there, the mock binary when
  they are not or when the real run throws.\<close>

definition compileToWasm :: "env \<Rightarrow> cm \<Rightarrow> bytes \<times> cm" where
  "compileToWasm en s =
     (case (compileWasmBytes s, linkWasmBytes s) of
        (Some compiler, Some linker) \<Rightarrow>
          (case runGoCompiler en compiler linker s of
             (Some w, s') \<Rightarrow> (w, s')
           | (None, s') \<Rightarrow> (generateMockWasm en, s'))
      | _ \<Rightarrow> (generateMockWasm en, s))"

text \<open>Stage 1 and the start of stage 2, up to the cache lookup.\<close>

definition enter :: "env \<Rightarrow> cm \<Rightarrow> source_files \<Rightarrow> cm" where
  "enter en s sourceFiles =
     (let s1 = emit (Progress 0 (str ''COMPILATION_START'')) (s\<lparr>status := Compiling\<rparr>);
          s2 = s1\<lparr>filesToCompile := sourceFiles\<rparr>;
          s3 = loadCompiler en (emit (StageUpdate 1 (str ''active'')) s2);
          s4 = emit (Progress 15 (str ''COMPILER_READY'')) (emit (StageUpdate 1 (str ''complete'')) s3)
      in emit (StageUpdate 2 (str ''active'')) s4)"

text \<open>The cache hit: progress 100, status complete, the cached bytes returned.\<close>

definition cache_hit :: "cm \<Rightarrow> cached \<Rightarrow> (cm_error + bytes) \<times> cm" where
  "cache_hit s cachedWasm =
     (let s1 = emit (Progress 100 (str ''CACHED_BINARY_LOADED'')) (emit (StageUpdate 2 (str ''complete'')) s);
          s2 = s1\<lparr>status := Complete\<rparr>
      in (Inr (wasmBinary cachedWasm),
          emit (CompleteEvent (wasmBinary cachedWasm) (cached_metadata cachedWasm)) s2))"

text \<open>The end of stage 2 and stages 3 and 4.\<close>

definition stage_sources :: "env \<Rightarrow> cm \<Rightarrow> source_files \<Rightarrow> cm" where
  "stage_sources en s sourceFiles =
     (let s1 = emit (Progress 25 (str ''CACHE_CHECKED'')) (emit (StageUpdate 2 (str ''complete'')) s);
          s2 = (emit (StageUpdate 3 (str ''active'')) s1)\<lparr>cm_vfs := loadGoSources (cm_vfs s1) sourceFiles\<rparr>;
          s3 = emit (Progress 40 (str ''SOURCES_LOADED'')) (emit (StageUpdate 3 (str ''complete'')) s2);
          s4 = (emit (StageUpdate 4 (str ''active'')) s3)\<lparr>cm_vfs := setupBuildEnvironment en (cm_vfs s3)\<rparr>
      in emit (Progress 55 (str ''VFS_READY'')) (emit (StageUpdate 4 (str ''complete'')) s4))"

text \<open>Stage 5.\<close>

definition stage_compile :: "env \<Rightarrow> cm \<Rightarrow> bytes \<times> cm" where
  "stage_compile en s =
     (case compileToWasm en (emit (StageUpdate 5 (str ''active'')) s) of
        (w, s1) \<Rightarrow> (w, emit (Progress 80 (str ''WASM_COMPILED'')) (emit (StageUpdate 5 (str ''complete'')) s1)))"

text \<open>Stages 6 and 7: the binary is cached, then validated and stored; a binary that fails
  the validation makes \<open>prepareBinary\<close> throw, which the \<open>catch\<close> of \<open>compile\<close> turns into the
  error status and rethrows.\<close>

definition publish :: "env \<Rightarrow> cm \<Rightarrow> jsstring \<Rightarrow> bytes \<Rightarrow> (cm_error + bytes) \<times> cm" where
  "publish en s sourceHash w =
     (let md = metadata_of en (cm_vfs s);
          s1 = cacheCompiledWasm en (emit (StageUpdate 6 (str ''active'')) s) sourceHash w md;
          s2 = emit (Progress 95 (str ''BINARY_CACHED'')) (emit (StageUpdate 6 (str ''complete'')) s1);
          s3 = emit (StageUpdate 7 (str ''active'')) s2
      in if \<not> validateWasmBinary w
         then (Inl InvalidWasm,
               emit (ErrorEvent (str ''Invalid WASM binary generated'')) (s3\<lparr>status := Failed\<rparr>))
         else
           let s4 = s3\<lparr>cm_vfs := writeFile (cm_vfs s3) (str ''/output/main.wasm'') (Bytes w)\<rparr>;
               s5 = emit (Progress 100 (str ''READY_FOR_EXECUTION'')) (emit (StageUpdate 7 (str ''complete'')) s4)
           in (Inr w, emit (CompleteEvent w md) (s5\<lparr>status := Complete\<rparr>)))"

definition compile :: "env \<Rightarrow> cm \<Rightarrow> source_files \<Rightarrow> (cm_error + bytes) \<times> cm" where
  "compile en s sourceFiles =
     (let s1 = enter en s sourceFiles;
          sourceHash = generateSourceHash sourceFiles
      in case getCachedWasm s1 sourceHash of
           Some cachedWasm \<Rightarrow> cache_hit s1 cachedWasm
         | None \<Rightarrow>
             (case stage_compile en (stage_sources en s1 sourceFiles) of
                (w, s2) \<Rightarrow> publish en s2 sourceHash w))"

section \<open>The SDK driver (\<open>GoScript\<close> of \<open>sdk/goscript.js\<close>)\<close>

record sdk =
  initialized :: bool
  compilerReady :: bool
  compiling :: bool
  sdk_vfs :: vfs
  sdk_compilerWasm :: bytes
  sdk_linkerWasm :: bytes

datatype sdk_source = Single jsstring | Files source_files

text \<open>What \<open>compile\<close> throws, and what it returns: a success with the output read from the
  filesystem, or a failure with its message.\<close>

datatype sdk_thrown = NotInitialized | Busy

datatype sdk_failure =
  ModuleThrew | CompilerNoOutput | LinkerNoOutput | NoOutputGenerated | ReadFailed fs_error

datatype compile_result = Success content nat | Failure sdk_failure

text \<open>
  \<open>compile\<close> up to its first suspension, which is the instantiation of the compiler module:
  the two guards, the \<open>compiling\<close> flag, the build directory and the source files.
\<close>

definition sdk_compile_begin ::
    "sdk \<Rightarrow> sdk_source \<Rightarrow> sdk_thrown + sdk \<times> source_files \<times> jsstring list" where
  "sdk_compile_begin s source =
     (if \<not> initialized s then Inl NotInitialized
      else if compiling s then Inl Busy
      else
        let s1 = s\<lparr>compiling := True\<rparr>;
            sourceFiles = (case source of Single t \<Rightarrow> [(str ''main.go'', t)] | Files fs \<Rightarrow> fs);
            v1 = sdk_mkdir (sdk_vfs s1) (str ''/tmp/build'');
            v2 = foldl (\<lambda>v (filename, c). sdk_writeFile v (str ''/tmp/build/'' @ filename) (Text c))
                   v1 sourceFiles;
            filePaths = map (\<lambda>(filename, c). str ''/tmp/build/'' @ filename) sourceFiles
        in Inr (s1\<lparr>sdk_vfs := v2\<rparr>, sourceFiles, filePaths))"

definition sdk_compile_argv :: "jsstring list \<Rightarrow> jsstring list" where
  "sdk_compile_argv filePaths =
     [str ''compile'', str ''-o'', str ''/tmp/build/main.o'', str ''-p'', str ''main'',
      str ''-complete''] @ filePaths"

definition sdk_link_argv :: "jsstring list" where
  "sdk_link_argv = [str ''link'', str ''-o'', str ''/tmp/build/main.wasm'', str ''-L'',
                    str ''/pkg/js_wasm'', str ''/tmp/build/main.o'']"

text \<open>The rest of \<open>compile\<close>: compiler, linker, reading the output; every error is caught
  and returned as a failure, and the \<open>finally\<close> clause clears the flag. The output file is
  looked for twice, by \<open>_runLinker\<close> and then by \<open>compile\<close> itself.\<close>

definition sdk_compile_rest ::
    "env \<Rightarrow> sdk \<Rightarrow> source_files \<Rightarrow> jsstring list \<Rightarrow> compile_result \<times> sdk" where
  "sdk_compile_rest en s sourceFiles filePaths =
     (let (v1, ok1) = go_run en (sdk_compilerWasm s) (sdk_compile_argv filePaths) (sdk_vfs s)
      in if \<not> ok1 then (Failure ModuleThrew, s\<lparr>sdk_vfs := v1, compiling := False\<rparr>)
         else if \<not> sdk_exists v1 (str ''/tmp/build/main.o'')
         then (Failure CompilerNoOutput, s\<lparr>sdk_vfs := v1, compiling := False\<rparr>)
         else
           let (v2, ok2) = go_run en (sdk_linkerWasm s) sdk_link_argv v1;
               finished = s\<lparr>sdk_vfs := v2, compiling := False\<rparr>
           in if \<not> ok2 then (Failure ModuleThrew, finished)
              else if \<not> sdk_exists v2 (str ''/tmp/build/main.wasm'')
              then (Failure LinkerNoOutput, finished)
              else if \<not> sdk_exists v2 (str ''/tmp/build/main.wasm'')
              then (Failure NoOutputGenerated, finished)
              else (case sdk_readFile v2 (str ''/tmp/build/main.wasm'') of
                      Inl e \<Rightarrow> (Failure (ReadFailed e), finished)
                    | Inr wasmData \<Rightarrow> (Success wasmData (length sourceFiles), finished)))"

definition sdk_compile :: "env \<Rightarrow> sdk \<Rightarrow> sdk_source \<Rightarrow> (sdk_thrown + compile_result) \<times> sdk" where
  "sdk_compile en s source =
     (case sdk_compile_begin s source of
        Inl e \<Rightarrow> (Inl e, s)
      | Inr (s1, sourceFiles, filePaths) \<Rightarrow>
          (case sdk_compile_rest en s1 sourceFiles filePaths of (r, s2) \<Rightarrow> (Inr r, s2)))"

subsection \<open>Sample environments and states\<close>

text \<open>No toolchain at all: nothing is loaded, no module runs, the mock binary has no noise.\<close>

definition no_toolchain :: env where
  "no_toolchain =
     \<lparr>toolchain_load = (\<lambda>v c l. (v, c, l)), go_run = (\<lambda>m argv v. (v, False)),
      random_bytes = [], build_config = (\<lambda>v. str ''{}''),
      metadata_of = (\<lambda>v. \<lparr>compilationTime = 0, goFileCount = 0, totalSize = 0\<rparr>), now = 0\<rparr>"

text \<open>A toolchain whose compiler and linker both write the bytes \<open>out\<close> to the path
  after \<open>-o\<close>; and the one that writes the magic followed by version 2.\<close>

definition emitting_toolchain :: "bytes \<Rightarrow> env" where
  "emitting_toolchain out =
     no_toolchain\<lparr>toolchain_load := (\<lambda>v c l. (v, Some [], Some [])),
                  go_run := (\<lambda>m argv v. (writeFile v (argv ! 2) (Bytes out), True))\<rparr>"

definition version2_wasm :: bytes where
  "version2_wasm = [0x00, 0x61, 0x73, 0x6d, 0x02, 0x00, 0x00, 0x00]"

definition version2_toolchain :: env where
  "version2_toolchain = emitting_toolchain version2_wasm"

definition idle_cm :: cm where
  "idle_cm =
     \<lparr>status = Idle, cm_vfs = empty_vfs, compiledWasm = Map.empty, compileWasmBytes = None,
      linkWasmBytes = None, compilerLoaded = False, filesToCompile = [], instantiated = 0,
      events = []\<rparr>"

definition hello_go :: source_files where
  "hello_go = [(str ''main.go'', str ''package main'')]"

definition ready_sdk :: sdk where
  "ready_sdk =
     \<lparr>initialized = True, compilerReady = True, compiling = False, sdk_vfs = sdk_empty_vfs,
      sdk_compilerWasm = [], sdk_linkerWasm = []\<rparr>"

section \<open>Properties of the text decoder\<close>

lemma mod_window: "k * q \<le> v \<Longrightarrow> v < k * q + k \<Longrightarrow> v mod k = v - k * (q::nat)"
proof -
  assume a: "k * q \<le> v" "v < k * q + k"
  have "v mod k = ((v - k * q) + k * q) mod k" using a by simp
  also have "\<dots> = (v - k * q) mod k" by (rule mod_mult_self2)
  also have "\<dots> = v - k * q" using a by simp
  finally show ?thesis .
qed

lemma cont_mod_mono:
  "128 \<le> lo \<Longrightarrow> lo \<le> v \<Longrightarrow> v \<le> hi \<Longrightarrow> hi \<le> (191::nat) \<Longrightarrow> lo mod 64 \<le> v mod 64"
  using mod_window[of 64 2 lo] mod_window[of 64 2 v] by simp

lemma pending_first:
  "0x80 \<le> lo \<Longrightarrow> lo \<le> hi \<Longrightarrow> hi \<le> 0xBF \<Longrightarrow> 0x80 \<le> (cp * 64 + lo mod 64) * 64 ^ n
   \<Longrightarrow> \<exists>x xs. utf8_run cp (Suc n) lo hi bs = x # xs \<and> 0x80 \<le> x"
proof (induction bs arbitrary: cp n lo hi)
  case Nil
  then show ?case by simp
next
  case (Cons b bs)
  show ?case
  proof (cases "lo \<le> unat b \<and> unat b \<le> hi")
    case False
    then show ?thesis by (auto simp: Let_def)
  next
    case True
    have m: "lo mod 64 \<le> unat b mod 64"
      using True Cons.prems cont_mod_mono[of lo "unat b" hi] by blast
    show ?thesis
    proof (cases n)
      case 0
      then show ?thesis using True Cons.prems m by (auto simp: Let_def)
    next
      case (Suc k)
      have "(cp * 64 + lo mod 64) * 64 ^ n \<le> (cp * 64 + unat b mod 64) * 64 ^ n"
        using m by (intro mult_le_mono1) simp
      then have "0x80 \<le> (cp * 64 + unat b mod 64) * 64 ^ n"
        using Cons.prems(4) by linarith
      also have "(cp * 64 + unat b mod 64) * 64 ^ n
                 = ((cp * 64 + unat b mod 64) * 64 + 0x80 mod 64) * 64 ^ k"
        using Suc by simp
      finally have "0x80 \<le> ((cp * 64 + unat b mod 64) * 64 + 0x80 mod 64) * 64 ^ k" .
      from Cons.IH[OF _ _ _ this, of "0xBF"] obtain x xs where
        "utf8_run (cp * 64 + unat b mod 64) (Suc k) 0x80 0xBF bs = x # xs" "0x80 \<le> x" by auto
      then show ?thesis using True Suc by (auto simp: Let_def)
    qed
  qed
qed

lemma lead2: 
  assumes b: "0xC2 \<le> v \<and> v \<le> (0xDF::nat)"
  shows "\<exists>x xs. utf8_run (v mod 32) 1 0x80 0xBF bs = x # xs \<and> 0x80 \<le> x"
proof -
  have "(2::nat) \<le> v mod 32" using b mod_window[of 32 6 v] by auto
  then have "(0x80::nat) \<le> (v mod 32 * 64 + 0x80 mod 64) * 64 ^ 0" by simp
  from pending_first[OF _ _ _ this, where bs = bs] show ?thesis by simp
qed

lemma lead3: 
  assumes c: "0xE0 \<le> v \<and> v \<le> (0xEF::nat)"
  shows "\<exists>x xs. utf8_run (v mod 16) 2 (if v = 0xE0 then 0xA0 else 0x80) (if v = 0xED then 0x9F else 0xBF) bs = x # xs \<and> 0x80 \<le> x"
proof -
  have "v = 0xE0 \<or> (1::nat) \<le> v mod 16" using c mod_window[of 16 14 v] by auto
  then have "(0x80::nat) \<le> (v mod 16 * 64 + (if v = 0xE0 then 0xA0 else 0x80) mod 64) * 64 ^ (Suc 0)" by auto
  from pending_first[OF _ _ _ this, where bs = bs and hi = "(if v = 0xED then 0x9F else 0xBF)"] show ?thesis 
    by (simp add: numeral_2_eq_2)
qed

lemma lead4: 
  assumes d: "0xF0 \<le> v \<and> v \<le> (0xF4::nat)"
  shows "\<exists>x xs. utf8_run (v mod 8) 3 (if v = 0xF0 then 0x90 else 0x80) (if v = 0xF4 then 0x8F else 0xBF) bs = x # xs \<and> 0x80 \<le> x"
proof -
  have "v = 0xF0 \<or> (1::nat) \<le> v mod 8" using d mod_window[of 8 30 v] by auto
  then have "(0x80::nat) \<le> (v mod 8 * 64 + (if v = 0xF0 then 0x90 else 0x80) mod 64) * 64 ^ (Suc (Suc 0))" by auto
  from pending_first[OF _ _ _ this, where bs = bs and hi = "(if v = 0xF4 then 0x8F else 0xBF)"] show ?thesis 
    by (simp add: numeral_3_eq_3)
qed

lemma utf8_run_ascii:
  "\<forall>t\<in>set ts. t < 0x80 \<Longrightarrow> utf8_run 0 0 0x80 0xBF bs = ts \<Longrightarrow> map unat bs = ts"
proof (induction bs arbitrary: ts)
  case Nil
  then show ?case by simp
next
  case (Cons b bs)
  let ?v = "unat b"
  consider (a) "?v \<le> 0x7F" | (b) "0xC2 \<le> ?v \<and> ?v \<le> 0xDF" | (c) "0xE0 \<le> ?v \<and> ?v \<le> 0xEF"
    | (d) "0xF0 \<le> ?v \<and> ?v \<le> 0xF4" | (e) "\<not> ?v \<le> 0x7F \<and> \<not> (0xC2 \<le> ?v \<and> ?v \<le> 0xDF) \<and> \<not> (0xE0 \<le> ?v \<and> ?v \<le> 0xEF) \<and> \<not> (0xF0 \<le> ?v \<and> ?v \<le> 0xF4)"
    by blast
  then show ?case
  proof cases
    case a
    then show ?thesis using Cons by (auto simp: Let_def)
  next
    case b
    from lead2[OF b, of bs] obtain x xs where "utf8_run (?v mod 32) 1 0x80 0xBF bs = x # xs" "0x80 \<le> x" by blast
    moreover have "utf8_run 0 0 0x80 0xBF (b # bs) = utf8_run (?v mod 32) 1 0x80 0xBF bs"
      using b by (simp add: Let_def)
    ultimately show ?thesis using Cons.prems by fastforce
  next
    case c
    from lead3[OF c, of bs] obtain x xs where "utf8_run (?v mod 16) 2 (if ?v = 0xE0 then 0xA0 else 0x80) (if ?v = 0xED then 0x9F else 0xBF) bs = x # xs" "0x80 \<le> x" by blast
    moreover have "utf8_run 0 0 0x80 0xBF (b # bs) = utf8_run (?v mod 16) 2 (if ?v = 0xE0 then 0xA0 else 0x80) (if ?v = 0xED then 0x9F else 0xBF) bs"
      using c by (simp add: Let_def)
    ultimately show ?thesis using Cons.prems by fastforce
  next
    case d
    from lead4[OF d, of bs] obtain x xs where "utf8_run (?v mod 8) 3 (if ?v = 0xF0 then 0x90 else 0x80) (if ?v = 0xF4 then 0x8F else 0xBF) bs = x # xs" "0x80 \<le> x" by blast
    moreover have "utf8_run 0 0 0x80 0xBF (b # bs) = utf8_run (?v mod 8) 3 (if ?v = 0xF0 then 0x90 else 0x80) (if ?v = 0xF4 then 0x8F else 0xBF) bs"
      using d by (simp add: Let_def)
    ultimately show ?thesis using Cons.prems by fastforce
  next
    case e
    then show ?thesis using Cons.prems by (auto simp: Let_def)
  qed
qed

lemma utf8_run_ascii_id:
  "\<forall>b\<in>set bs. unat b < 0x80 \<Longrightarrow> utf8_run 0 0 0x80 0xBF bs = map unat bs"
  by (induction bs) (auto simp: Let_def)

lemma utf16_ascii:
  "\<forall>t\<in>set ts. t < 0x80 \<Longrightarrow> concat (map utf16_units cps) = ts \<Longrightarrow> cps = ts"
proof (induction cps arbitrary: ts)
  case Nil
  then show ?case by simp
next
  case (Cons c cps)
  show ?case
  proof (cases "c < 0x10000")
    case True
    then show ?thesis using Cons by (auto simp: utf16_units_def)
  next
    case False
    then have "0xD800 + (c - 0x10000) div 0x400 \<in> set ts"
      using Cons.prems(2) by (auto simp: utf16_units_def)
    then show ?thesis using Cons.prems(1) by fastforce
  qed
qed

lemma text_decode_ascii:
  assumes "\<forall>t\<in>set ts. t < 0x80" "length bs = length ts"
  shows "text_decode bs = ts \<longleftrightarrow> map unat bs = ts"
proof
  assume d: "text_decode bs = ts"
  then have r: "map unat (strip_bom bs) = ts"
    using assms(1) utf16_ascii utf8_run_ascii unfolding text_decode_def by blast
  then have "length (strip_bom bs) = length bs" using assms(2) by (metis length_map)
  then have "strip_bom bs = bs" by (auto simp: strip_bom_def split: if_splits)
  then show "map unat bs = ts" using r by simp
next
  assume m: "map unat bs = ts"
  then have a: "\<forall>b\<in>set bs. unat b < 0x80" using assms(1) by auto
  have nb: "strip_bom bs = bs"
  proof (cases "take 3 bs = [0xEF, 0xBB, 0xBF]")
    case True
    then have "0xEF \<in> set (take 3 bs)" by simp
    then have "(0xEF::byte) \<in> set bs" by (rule in_set_takeD)
    then show ?thesis using a by fastforce
  next
    case False
    then show ?thesis by (simp add: strip_bom_def)
  qed
  have "\<forall>t\<in>set (map unat bs). t < 0x10000" using a by fastforce
  then have "concat (map utf16_units (map unat bs)) = map unat bs"
    by (induction bs) (auto simp: utf16_units_def)
  then show "text_decode bs = ts"
    using m nb utf8_run_ascii_id[OF a] by (simp add: text_decode_def)
qed

lemma unat_ascii: "map unat (ascii s) = str s"
  by (induction s) (auto simp: ascii_def str_def unat_of_nat)

lemma magic_units: "\<forall>t\<in>set (str ''GOSCRIPT''). t < 0x80"
  by (simp add: str_def)

lemma magic_check:
  assumes "8 \<le> length pack"
  shows "text_decode (take 8 pack) = str ''GOSCRIPT'' \<longleftrightarrow> take 8 pack = ascii ''GOSCRIPT''"
proof -
  have "length (take 8 pack) = length (str ''GOSCRIPT'')" using assms by (simp add: str_def)
  from text_decode_ascii[OF magic_units this]
  have "text_decode (take 8 pack) = str ''GOSCRIPT'' \<longleftrightarrow> map unat (take 8 pack) = map unat (ascii ''GOSCRIPT'')"
    by (simp add: unat_ascii)
  then show ?thesis by (simp add: inj_map_eq_map)
qed

section \<open>Properties of the pack parser\<close>

subsection \<open>Buffers and numbers\<close>

lemma bytes_of_bound: "length (bytes_of b) < 2 ^ 53"
  using bytes_of[of b] by simp

lemma byteLength_bound: "byteLength b < 2 ^ 53"
  using bytes_of_bound[of b] by (simp add: byteLength_def)

lemma bytes_of_to_buffer: "length xs < 2 ^ 53 \<Longrightarrow> bytes_of (to_buffer xs) = xs"
  by (simp add: to_buffer_def Abs_buffer_inverse)

lemma bytes_of_set_byte: "bytes_of (set_byte b i v) = (bytes_of b)[i := v]"
  using bytes_of_bound[of b] by (simp add: set_byte_def Abs_buffer_inverse)

text \<open>For evaluation a buffer is represented by its bytes.\<close>

declare bytes_of_inverse [code abstype]

lemma to_buffer_code [code abstract]: "bytes_of (to_buffer xs) = take (2 ^ 53 - 1) xs"
  by (simp add: to_buffer_def Abs_buffer_inverse)

lemma set_byte_code [code abstract]: "bytes_of (set_byte b i v) = (bytes_of b)[i := v]"
  by (rule bytes_of_set_byte)

lemma to_number_exact: "n < 2 ^ 53 \<Longrightarrow> to_number n = n"
  by (simp add: to_number_def)

lemma number_add_exact: "a + b < 2 ^ 53 \<Longrightarrow> number_add a b = a + b"
  by (simp add: number_add_def to_number_def)

lemma bit_length_lower: "n \<noteq> 0 \<Longrightarrow> 2 ^ (bit_length n - 1) \<le> n"
proof (induction n rule: bit_length.induct)
  case (1 n)
  show ?case
  proof (cases "n div 2 = 0")
    case True
    then have "bit_length n = 1" using 1(2) by (simp add: bit_length.simps)
    then show ?thesis using 1(2) by simp
  next
    case False
    then have ih: "2 ^ (bit_length (n div 2) - 1) \<le> n div 2" using 1 by simp
    have pos: "bit_length (n div 2) \<noteq> 0" using False by (subst bit_length.simps) simp
    have "bit_length n - 1 = Suc (bit_length (n div 2) - 1)"
      using 1(2) pos by (subst bit_length.simps) simp
    then have "(2::nat) ^ (bit_length n - 1) = 2 * 2 ^ (bit_length (n div 2) - 1)" by simp
    also have "\<dots> \<le> 2 * (n div 2)" using ih by simp
    also have "\<dots> \<le> n" by simp
    finally show ?thesis .
  qed
qed

lemma to_number_large:
  assumes "2 ^ 53 \<le> n"
  shows "2 ^ 53 \<le> to_number n"
proof -
  define e where "e = bit_length n - 53"
  define q where "q = n div 2 ^ e"
  have n0: "n \<noteq> 0" using assms by auto
  have lower: "q * 2 ^ e \<le> to_number n"
    using assms by (simp add: to_number_def Let_def e_def q_def)
  have "(2::nat) ^ 53 \<le> q * 2 ^ e"
  proof (cases "e = 0")
    case True
    then show ?thesis using assms by (simp add: q_def)
  next
    case False
    then have "bit_length n - 1 = e + 52" by (simp add: e_def)
    then have "(2::nat) ^ (e + 52) \<le> n" using bit_length_lower[OF n0] by simp
    then have "(2::nat) ^ (e + 52) div 2 ^ e \<le> q" unfolding q_def by (rule div_le_mono)
    moreover have "(2::nat) ^ (e + 52) div 2 ^ e = 2 ^ 52"
      by (simp add: power_add)
    ultimately have "(2::nat) ^ 52 \<le> q" by simp
    then have "(2::nat) ^ 52 * 2 ^ e \<le> q * 2 ^ e" by simp
    moreover have "(2::nat) ^ 53 \<le> 2 ^ 52 * 2 ^ e"
    proof -
      have "(2::nat) ^ 1 \<le> 2 ^ e" using False by (intro power_increasing) auto
      then show ?thesis by simp
    qed
    ultimately show ?thesis by linarith
  qed
  then show ?thesis using lower by linarith
qed

lemma to_number_small: "to_number n < 2 ^ 53 \<Longrightarrow> to_number n = n"
  using to_number_large[of n] to_number_exact[of n] by (cases "n < 2 ^ 53") auto

subsection \<open>Errors and values of the reads\<close>

lemma getUint_error: "getUint n buf off = Inl e \<Longrightarrow> e = RangeError"
  by (auto simp: getUint_def split: if_splits)

lemma u8view_error: "u8view buf off len = Inl e \<Longrightarrow> e = RangeError"
  by (auto simp: u8view_def split: if_splits)

lemma read_entries_error: "read_entries buf ds n pos idx = Inl e \<Longrightarrow> e = RangeError"
proof (induction n arbitrary: pos idx)
  case 0
  then show ?case by simp
next
  case (Suc n)
  then show ?case
    by (auto simp: bnd_def split: sum.splits dest: getUint_error u8view_error)
qed

lemma after_header_error:
  assumes "parseToolchain jp pack = Inl e" "text_decode (take 8 (bytes_of pack)) = str ''GOSCRIPT''"
    "getUint 4 (bytes_of pack) 8 = Inr 2" "8 \<le> length (bytes_of pack)"
  shows "\<not> is_format_error e"
proof -
  have "e = RangeError \<or> e = SyntaxError"
    using assms
    by (auto simp: parseToolchain_def bnd_def u8view_def Let_def
        split: sum.splits option.splits if_splits
        dest: getUint_error read_entries_error)
  then show ?thesis by auto
qed

lemma getUint_value:
  "getUint n (bytes_of pack) off = Inr v \<Longrightarrow> v = uint_at n pack off \<and> off + n \<le> byteLength pack"
  by (auto simp: getUint_def uint_at_def byte_range_def byteLength_def split: if_splits)

lemma u8view_value:
  "u8view (bytes_of pack) off len = Inr v \<Longrightarrow> v = byte_range pack off len \<and> off + len \<le> byteLength pack"
  by (auto simp: u8view_def byte_range_def byteLength_def split: if_splits)

lemma slice_in_range:
  "e \<le> byteLength pack \<Longrightarrow> b \<le> e \<Longrightarrow> buffer_slice (bytes_of pack) b e = byte_range pack b (e - b)"
  by (simp add: buffer_slice_def byte_range_def byteLength_def Let_def min_def)

lemma byte_range_length: "off + len \<le> byteLength pack \<Longrightarrow> length (byte_range pack off len) = len"
  by (simp add: byte_range_def byteLength_def)

text \<open>A read that succeeds lies inside the buffer, where positions are exact numbers.\<close>

lemma read_entries_declared:
  "read_entries (bytes_of pack) ds n pos idx = Inr idx' \<Longrightarrow>
     idx' = idx ++ map_of (rev (index_of ds (declared_entries pack pos n)))"
proof (induction n arbitrary: pos idx)
  case 0
  then show ?case by (simp add: index_of_def)
next
  case (Suc n)
  let ?buf = "bytes_of pack"
  from Suc.prems obtain nameLen nameBytes pkgOffset pkgSize where
    a: "getUint 2 ?buf pos = Inr nameLen"
    and b: "u8view ?buf (number_add pos 2) nameLen = Inr nameBytes"
    and c: "getUint 8 ?buf (number_add (number_add pos 2) nameLen) = Inr pkgOffset"
    and d: "getUint 4 ?buf (number_add (number_add (number_add pos 2) nameLen) 8) = Inr pkgSize"
    and r: "read_entries ?buf ds n
         (number_add (number_add (number_add (number_add pos 2) nameLen) 8) 4)
         (idx(text_decode nameBytes \<mapsto>
            \<lparr>offset = number_add ds (to_number pkgOffset), size_bytes = pkgSize\<rparr>)) = Inr idx'"
    by (auto simp: bnd_def split: sum.splits)
  note bound = byteLength_bound[of pack]
  have p1: "number_add pos 2 = pos + 2"
    using getUint_value[OF a] bound by (intro number_add_exact) simp
  have p2: "number_add (pos + 2) nameLen = pos + 2 + nameLen"
    using u8view_value[OF b[unfolded p1]] bound by (intro number_add_exact) simp
  have p3: "number_add (pos + 2 + nameLen) 8 = pos + 2 + nameLen + 8"
    using getUint_value[OF c[unfolded p1 p2]] bound by (intro number_add_exact) simp
  have p4: "number_add (pos + 2 + nameLen + 8) 4 = pos + 2 + nameLen + 8 + 4"
    using getUint_value[OF d[unfolded p1 p2 p3]] bound by (intro number_add_exact) simp
  note ih = Suc.IH[OF r[unfolded p1 p2 p3 p4]]
  have e: "declared_entries pack pos (Suc n) =
     (nameBytes, pkgOffset, pkgSize) # declared_entries pack (pos + 2 + nameLen + 8 + 4) n"
    using getUint_value[OF a] u8view_value[OF b[unfolded p1]] getUint_value[OF c[unfolded p1 p2]]
      getUint_value[OF d[unfolded p1 p2 p3]]
    by (simp add: Let_def)
  show ?case unfolding e ih by (simp add: index_of_def)
qed

text \<open>So is the index offset, once the first entry has been read at it.\<close>

lemma read_entries_start:
  assumes "read_entries (bytes_of pack) ds n (to_number p) idx = Inr idx'"
  shows "idx' = idx ++ map_of (rev (index_of ds (declared_entries pack p n)))"
proof (cases n)
  case 0
  then show ?thesis using assms by (simp add: index_of_def)
next
  case (Suc m)
  then obtain nameLen where "getUint 2 (bytes_of pack) (to_number p) = Inr nameLen"
    using assms by (auto simp: bnd_def split: sum.splits)
  then have "to_number p + 2 \<le> byteLength pack" using getUint_value by blast
  then have "to_number p < 2 ^ 53" using byteLength_bound[of pack] by simp
  then have "to_number p = p" by (rule to_number_small)
  then show ?thesis using assms read_entries_declared by simp
qed

lemma parse_success:
  assumes "parseToolchain jp pack = Inr t"
  shows "sections_fit pack"
    and "packData t = pack"
    and "compilerWasm t = byte_range pack 16 (declared_compiler_size pack)"
    and "linkerWasm t = byte_range pack (declared_linker_at pack + 4) (declared_linker_size pack)"
    and "packageDataStart t = declared_data_start pack"
    and "packageIndex t = map_of (rev (index_of (declared_data_start pack) (declared_packages pack)))"
proof -
  let ?buf = "bytes_of pack"
  from assms obtain magicBytes version compilerSize linkerSize indexSize indexBytes names
      packageCount indexOffset idx where
    v: "getUint 4 ?buf 8 = Inr version"
    and c: "getUint 4 ?buf 12 = Inr compilerSize"
    and l: "getUint 4 ?buf (16 + compilerSize) = Inr linkerSize"
    and i: "getUint 4 ?buf (16 + compilerSize + 4 + linkerSize) = Inr indexSize"
    and ib: "u8view ?buf (16 + compilerSize + 4 + linkerSize + 4) indexSize = Inr indexBytes"
    and pc: "getUint 4 ?buf (16 + compilerSize + 4 + linkerSize + 4 + indexSize) = Inr packageCount"
    and io: "getUint 8 ?buf (16 + compilerSize + 4 + linkerSize + 4 + indexSize + 4) = Inr indexOffset"
    and re: "read_entries ?buf (16 + compilerSize + 4 + linkerSize + 4 + indexSize + 4 + 8)
               packageCount (to_number indexOffset) Map.empty = Inr idx"
    and t: "t = \<lparr>packData = pack, compilerWasm = buffer_slice ?buf 16 (16 + compilerSize),
              linkerWasm = buffer_slice ?buf (16 + compilerSize + 4) (16 + compilerSize + 4 + linkerSize),
              packageNames = names, packageIndex = idx,
              packageDataStart = 16 + compilerSize + 4 + linkerSize + 4 + indexSize + 4 + 8\<rparr>"
    by (auto simp: parseToolchain_def bnd_def Let_def split: sum.splits option.splits if_splits)
  note cv = getUint_value[OF c] and lv = getUint_value[OF l] and iv = getUint_value[OF i]
    and ibv = u8view_value[OF ib] and pcv = getUint_value[OF pc] and iov = getUint_value[OF io]
  have c1: "compilerSize = declared_compiler_size pack" using cv by (simp add: declared_compiler_size_def)
  have l0: "declared_linker_at pack = 16 + compilerSize" using c1 by (simp add: declared_linker_at_def)
  have l1: "linkerSize = declared_linker_size pack" using lv l0 by (simp add: declared_linker_size_def)
  have n0: "declared_names_at pack = 16 + compilerSize + 4 + linkerSize"
    using l0 l1 by (simp add: declared_names_at_def)
  have n1: "indexSize = declared_names_size pack" using iv n0 by (simp add: declared_names_size_def)
  have k0: "declared_count_at pack = 16 + compilerSize + 4 + linkerSize + 4 + indexSize"
    using n0 n1 by (simp add: declared_count_at_def)
  have k1: "packageCount = declared_count pack" using pcv k0 by (simp add: declared_count_def)
  have x1: "indexOffset = declared_index_offset pack" using iov k0 by (simp add: declared_index_offset_def)
  have d0: "declared_data_start pack = 16 + compilerSize + 4 + linkerSize + 4 + indexSize + 4 + 8"
    using k0 by (simp add: declared_data_start_def)
  show "sections_fit pack"
    using lv iv ibv c1 l0 l1 n0 n1 by (simp add: sections_fit_def)
  show "packData t = pack" using t by simp
  show "compilerWasm t = byte_range pack 16 (declared_compiler_size pack)"
    using t c1 lv slice_in_range[of "16 + compilerSize" pack 16] by simp
  show "linkerWasm t = byte_range pack (declared_linker_at pack + 4) (declared_linker_size pack)"
    using t l0 l1 iv slice_in_range[of "16 + compilerSize + 4 + linkerSize" pack "16 + compilerSize + 4"]
    by simp
  show "packageDataStart t = declared_data_start pack" using t d0 by simp
  show "packageIndex t = map_of (rev (index_of (declared_data_start pack) (declared_packages pack)))"
    using read_entries_start[OF re] t d0 k1 x1 by (simp add: declared_packages_def)
qed


lemma overrun_range_error:
  assumes "12 \<le> byteLength pack" "byte_range pack 0 8 = ascii ''GOSCRIPT''" "uint_at 4 pack 8 = 2"
    "\<not> sections_fit pack"
  shows "parseToolchain jp pack = Inl RangeError"
proof -
  let ?buf = "bytes_of pack"
  have l8: "8 \<le> length ?buf" using assms(1) by (simp add: byteLength_def)
  have m: "text_decode (take 8 ?buf) = str ''GOSCRIPT''"
    using magic_check[OF l8] assms(2) by (simp add: byte_range_def)
  have ver: "getUint 4 ?buf 8 = Inr 2"
    using assms(1,3) by (simp add: getUint_def uint_at_def byte_range_def byteLength_def)
  obtain r where r: "parseToolchain jp pack = r" by simp
  show ?thesis
  proof (cases r)
    case (Inl e)
    have "e \<noteq> SyntaxError"
    proof
      assume "e = SyntaxError"
      then have "parseToolchain jp pack = Inl SyntaxError" using r Inl by simp
      then obtain compilerSize linkerSize indexSize indexBytes where
        c: "getUint 4 ?buf 12 = Inr compilerSize"
        and l: "getUint 4 ?buf (16 + compilerSize) = Inr linkerSize"
        and i: "getUint 4 ?buf (16 + compilerSize + 4 + linkerSize) = Inr indexSize"
        and ib: "u8view ?buf (16 + compilerSize + 4 + linkerSize + 4) indexSize = Inr indexBytes"
        by (auto simp: parseToolchain_def bnd_def Let_def split: sum.splits option.splits if_splits
            dest: getUint_error u8view_error read_entries_error)
      note cv = getUint_value[OF c] and lv = getUint_value[OF l] and iv = getUint_value[OF i]
        and ibv = u8view_value[OF ib]
      have "sections_fit pack"
        using cv lv iv ibv
        by (simp add: sections_fit_def declared_compiler_size_def declared_linker_at_def
            declared_linker_size_def declared_names_at_def declared_names_size_def)
      then show False using assms(4) by simp
    qed
    moreover have "\<not> is_format_error e"
      using after_header_error[OF _ m ver l8] r Inl by simp
    ultimately have "e = RangeError" by (cases e) auto
    then show ?thesis using r Inl by simp
  next
    case (Inr t)
    then have "sections_fit pack" using parse_success(1) r by blast
    then show ?thesis using assms(4) by simp
  qed
qed

subsection \<open>Evaluation on sample packs\<close>

lemma sample_bytes:
  "bytes_of (sample_pack sz) = pack_bytes [0, 0, 0, 0, 0, 0, 0, 0] sz"
  "bytes_of far_pack = pack_bytes [1, 0, 0, 0, 0, 0, 0x20, 0] 2"
  "bytes_of truncated_pack = ascii ''GOSCRIPT'' @ [2, 0, 0, 0] @ [9, 0, 0, 0] @ [0xAA]"
  "bytes_of version3_pack = ascii ''GOSCRIPT'' @ [3, 0, 0, 0]"
  "bytes_of short_pack = ascii ''GOSCRIP''"
  by (simp_all add: sample_pack_def far_pack_def truncated_pack_def version3_pack_def
      short_pack_def bytes_of_to_buffer pack_bytes_def ascii_def)

lemmas pack_eval = parseToolchain_def bnd_def getUint_def u8view_def buffer_slice_def sample_bytes
  pack_bytes_def ascii_def str_def text_decode_def strip_bom_def utf16_units_def Let_def
  sample_toolchain_def far_toolchain_def byteLength_def

lemmas declared_eval = declared_packages_def declared_index_offset_def declared_count_def
  declared_count_at_def declared_names_size_def declared_names_at_def declared_linker_size_def
  declared_linker_at_def declared_compiler_size_def declared_data_start_def uint_at_def
  byte_range_def sections_fit_def byteLength_def sample_bytes pack_bytes_def ascii_def

lemma sample_parse: "parseToolchain Some (sample_pack sz) = Inr (sample_toolchain sz)"
  by (simp add: pack_eval number_add_def to_number_def)

lemma far_number: "to_number 9007199254740993 = 9007199254740992"
  "number_add 40 9007199254740992 = 9007199254741032"
proof -
  have b: "bit_length 9007199254740993 = 54" "bit_length 9007199254741032 = 54"
    by (simp_all add: bit_length.simps)
  show "to_number 9007199254740993 = 9007199254740992"
    by (simp add: to_number_def b Let_def)
  show "number_add 40 9007199254740992 = 9007199254741032"
    by (simp add: number_add_def to_number_def b Let_def)
qed

lemma far_parse: "parseToolchain Some far_pack = Inr far_toolchain"
  by (simp add: pack_eval far_number number_add_exact to_number_exact)


subsection \<open>The header\<close>

lemma short_buffer_error: "byteLength pack < 8 \<Longrightarrow> parseToolchain jp pack = Inl RangeError"
  by (simp add: parseToolchain_def bnd_def u8view_def byteLength_def)

lemma cut_header_error:
  assumes "byteLength pack < 12" "byte_range pack 0 8 = ascii ''GOSCRIPT''"
  shows "parseToolchain jp pack = Inl RangeError"
proof -
  have "length (byte_range pack 0 8) = 8" using assms(2) by (simp add: ascii_def)
  then have l8: "8 \<le> length (bytes_of pack)" by (simp add: byte_range_def)
  have "text_decode (take 8 (bytes_of pack)) = str ''GOSCRIPT''"
    using magic_check[OF l8] assms(2) by (simp add: byte_range_def)
  then show ?thesis
    using l8 assms(1) by (simp add: parseToolchain_def bnd_def u8view_def getUint_def byteLength_def)
qed

lemma bad_magic_error:
  assumes "8 \<le> byteLength pack" "byte_range pack 0 8 \<noteq> ascii ''GOSCRIPT''"
  shows "parseToolchain jp pack = Inl BadMagic"
proof -
  have l8: "8 \<le> length (bytes_of pack)" using assms(1) by (simp add: byteLength_def)
  show ?thesis
    using magic_check[OF l8] l8 assms(2) by (simp add: parseToolchain_def bnd_def u8view_def byte_range_def)
qed

lemma bad_version_error:
  assumes "12 \<le> byteLength pack" "byte_range pack 0 8 = ascii ''GOSCRIPT''" "uint_at 4 pack 8 \<noteq> 2"
  shows "parseToolchain jp pack = Inl (UnsupportedVersion (uint_at 4 pack 8))"
proof -
  have l8: "8 \<le> length (bytes_of pack)" using assms(1) by (simp add: byteLength_def)
  have m: "text_decode (take 8 (bytes_of pack)) = str ''GOSCRIPT''"
    using magic_check[OF l8] assms(2) by (simp add: byte_range_def)
  have ver: "getUint 4 (bytes_of pack) 8 = Inr (uint_at 4 pack 8)"
    using assms(1) by (simp add: getUint_def uint_at_def byte_range_def byteLength_def)
  show ?thesis
    using m l8 ver assms(3) by (simp add: parseToolchain_def bnd_def u8view_def)
qed

lemma good_header_error:
  assumes "12 \<le> byteLength pack" "byte_range pack 0 8 = ascii ''GOSCRIPT''" "uint_at 4 pack 8 = 2"
    "parseToolchain jp pack = Inl e"
  shows "\<not> is_format_error e"
proof -
  have l8: "8 \<le> length (bytes_of pack)" using assms(1) by (simp add: byteLength_def)
  have m: "text_decode (take 8 (bytes_of pack)) = str ''GOSCRIPT''"
    using magic_check[OF l8] assms(2) by (simp add: byte_range_def)
  have ver: "getUint 4 (bytes_of pack) 8 = Inr 2"
    using assms(1,3) by (simp add: getUint_def uint_at_def byte_range_def byteLength_def)
  show ?thesis by (rule after_header_error[OF assms(4) m ver l8])
qed

text \<open>
  Claim C3, as the code has it. \<open>parseToolchain\<close> fails with one of its two format errors
  (bad magic, unsupported version) exactly when the buffer holds eight bytes that are not
  the ASCII letters \<open>GOSCRIPT\<close>, or holds twelve bytes, the magic, and a little-endian
  32-bit number after it that is not 2. On a buffer too short to hold the magic, or
  holding the magic and no full version, the host raises a \<open>RangeError\<close>. Altering any
  single byte of a correct magic makes the parse fail with the bad-magic error.
\<close>

theorem parseToolchain_format_error:
  "((\<exists>e. parseToolchain jp pack = Inl e \<and> is_format_error e)
      \<longleftrightarrow> (8 \<le> byteLength pack \<and> byte_range pack 0 8 \<noteq> ascii ''GOSCRIPT'')
        \<or> (12 \<le> byteLength pack \<and> byte_range pack 0 8 = ascii ''GOSCRIPT''
             \<and> uint_at 4 pack 8 \<noteq> 2))
   \<and> (byteLength pack < 8 \<or> (byteLength pack < 12 \<and> byte_range pack 0 8 = ascii ''GOSCRIPT'')
        \<longrightarrow> parseToolchain jp pack = Inl RangeError)
   \<and> (\<forall>i<8. \<forall>b. byte_range pack 0 8 = ascii ''GOSCRIPT'' \<and> b \<noteq> bytes_of pack ! i
          \<longrightarrow> parseToolchain jp (set_byte pack i b) = Inl BadMagic)"
proof (intro conjI impI allI)
  show "(\<exists>e. parseToolchain jp pack = Inl e \<and> is_format_error e)
      \<longleftrightarrow> (8 \<le> byteLength pack \<and> byte_range pack 0 8 \<noteq> ascii ''GOSCRIPT'')
        \<or> (12 \<le> byteLength pack \<and> byte_range pack 0 8 = ascii ''GOSCRIPT''
             \<and> uint_at 4 pack 8 \<noteq> 2)"
  proof (cases "byteLength pack < 8")
    case True
    then show ?thesis using short_buffer_error[OF True, of jp] by auto
  next
    case l8: False
    show ?thesis
    proof (cases "byte_range pack 0 8 = ascii ''GOSCRIPT''")
      case False
      then show ?thesis using bad_magic_error[of pack jp] l8 by auto
    next
      case m: True
      show ?thesis
      proof (cases "byteLength pack < 12")
        case True
        then show ?thesis using cut_header_error[OF True m, of jp] m by auto
      next
        case l12: False
        show ?thesis
        proof (cases "uint_at 4 pack 8 = 2")
          case True
          then show ?thesis using good_header_error[of pack jp] m l12 by auto
        next
          case False
          then show ?thesis using bad_version_error[of pack jp] m l12 by auto
        qed
      qed
    qed
  qed
next
  assume "byteLength pack < 8 \<or> (byteLength pack < 12 \<and> byte_range pack 0 8 = ascii ''GOSCRIPT'')"
  then show "parseToolchain jp pack = Inl RangeError"
    using short_buffer_error cut_header_error by blast
next
  fix i b
  assume i: "i < 8" and h: "byte_range pack 0 8 = ascii ''GOSCRIPT'' \<and> b \<noteq> bytes_of pack ! i"
  have "length (byte_range pack 0 8) = 8" using h by (simp add: ascii_def)
  then have len: "8 \<le> length (bytes_of pack)" by (simp add: byte_range_def)
  let ?p = "set_byte pack i b"
  have l8: "8 \<le> byteLength ?p" using len by (simp add: byteLength_def bytes_of_set_byte)
  have "byte_range ?p 0 8 ! i = b" using i len by (simp add: byte_range_def bytes_of_set_byte)
  moreover have "byte_range pack 0 8 ! i = bytes_of pack ! i" using i len by (simp add: byte_range_def)
  ultimately have "byte_range ?p 0 8 \<noteq> ascii ''GOSCRIPT''" using h by metis
  then show "parseToolchain jp ?p = Inl BadMagic" using l8 by (rule bad_magic_error[rotated])
qed

theorem parseToolchain_format_error_witness:
  "12 \<le> byteLength version3_pack
   \<and> byte_range version3_pack 0 8 = ascii ''GOSCRIPT''
   \<and> uint_at 4 version3_pack 8 = 3
   \<and> (\<exists>e. parseToolchain Some version3_pack = Inl e \<and> is_format_error e)
   \<and> parseToolchain Some (set_byte version3_pack 0 0x48) = Inl BadMagic
   \<and> byteLength short_pack < 8
   \<and> parseToolchain Some short_pack = Inl RangeError"
proof -
  have e: "12 \<le> byteLength version3_pack" "byte_range version3_pack 0 8 = ascii ''GOSCRIPT''"
    "uint_at 4 version3_pack 8 = 3" "(0x48::byte) \<noteq> bytes_of version3_pack ! 0"
    "byteLength short_pack < 8"
    by (simp_all add: declared_eval)
  note v = parseToolchain_format_error[of Some version3_pack]
  note s = parseToolchain_format_error[of Some short_pack]
  have 1: "\<exists>e. parseToolchain Some version3_pack = Inl e \<and> is_format_error e"
    using v e(1,2,3) by simp
  have 2: "parseToolchain Some (set_byte version3_pack 0 0x48) = Inl BadMagic"
    using v e(2,4) by auto
  have 3: "parseToolchain Some short_pack = Inl RangeError"
    using s e(5) by blast
  show ?thesis using e 1 2 3 by simp
qed

text \<open>
  Claim C3 as stated fails: of a buffer of seven bytes the first eight bytes are not the
  ASCII letters \<open>GOSCRIPT\<close>, and \<open>parseToolchain\<close> ends with the host's \<open>RangeError\<close>, raised
  by the view of the magic, which is none of the two format errors.
\<close>

theorem short_buffer_counterexample:
  "byteLength short_pack = 7
   \<and> byte_range short_pack 0 8 \<noteq> ascii ''GOSCRIPT''
   \<and> parseToolchain Some short_pack = Inl RangeError
   \<and> \<not> is_format_error RangeError"
  by (simp add: pack_eval byte_range_def)

subsection \<open>The ranges returned\<close>



subsection \<open>What the parser checks\<close>

text \<open>
  Claim C4, as the code has it. A compiler, linker or name-list section whose declared
  length overruns the buffer makes \<open>parseToolchain\<close> fail, by the \<open>RangeError\<close> of the next
  read outside the buffer, so an accepted pack holds both blobs at their full declared
  lengths. The per-package ranges are not examined while parsing: the index records, for
  every entry, the declared size and as offset the sum of the start of the package data
  and the declared data offset, computed in numbers and so rounded from \<open>2^53\<close> on; an
  entry that leaves the pack fails only when \<open>getPackage\<close> builds its view.
\<close>

theorem section_overrun_rejected:
  "(12 \<le> byteLength pack \<and> byte_range pack 0 8 = ascii ''GOSCRIPT'' \<and> uint_at 4 pack 8 = 2
      \<and> \<not> sections_fit pack \<longrightarrow> parseToolchain jp pack = Inl RangeError)
   \<and> (parseToolchain jp pack = Inr t \<longrightarrow>
        length (compilerWasm t) = declared_compiler_size pack
      \<and> length (linkerWasm t) = declared_linker_size pack
      \<and> packageIndex t = map_of (rev (index_of (declared_data_start pack) (declared_packages pack)))
      \<and> (\<forall>n e. packageIndex t n = Some e \<and> byteLength pack < offset e + size_bytes e
             \<longrightarrow> getPackage t n = Inl RangeError))"
proof (intro conjI impI allI)
  assume "12 \<le> byteLength pack \<and> byte_range pack 0 8 = ascii ''GOSCRIPT'' \<and> uint_at 4 pack 8 = 2
      \<and> \<not> sections_fit pack"
  then show "parseToolchain jp pack = Inl RangeError" using overrun_range_error by blast
next
  assume p: "parseToolchain jp pack = Inr t"
  note ps = parse_success[OF p]
  show "length (compilerWasm t) = declared_compiler_size pack"
    using ps(1,3) by (simp add: sections_fit_def byte_range_length)
  show "length (linkerWasm t) = declared_linker_size pack"
    using ps(1,4) by (simp add: sections_fit_def byte_range_length)
  show "packageIndex t = map_of (rev (index_of (declared_data_start pack) (declared_packages pack)))"
    by (rule ps(6))
  fix n e
  assume "packageIndex t n = Some e \<and> byteLength pack < offset e + size_bytes e"
  then show "getPackage t n = Inl RangeError"
    using ps(2) by (simp add: getPackage_def u8view_def bnd_def byteLength_def)
qed

theorem section_overrun_rejected_witness:
  "parseToolchain Some truncated_pack = Inl RangeError
   \<and> parseToolchain Some (sample_pack 200) = Inr (sample_toolchain 200)
   \<and> length (compilerWasm (sample_toolchain 200)) = 1
   \<and> getPackage (sample_toolchain 200) (str ''a'') = Inl RangeError
   \<and> parseToolchain Some far_pack = Inr far_toolchain
   \<and> declared_packages far_pack = [(ascii ''a'', 9007199254740993, 2)]
   \<and> map_of (rev (index_of (declared_data_start far_pack) (declared_packages far_pack))) (str ''a'')
       = Some \<lparr>offset = 9007199254741032, size_bytes = 2\<rparr>
   \<and> getPackage far_toolchain (str ''a'') = Inl RangeError"
proof -
  have a: "12 \<le> byteLength truncated_pack" "byte_range truncated_pack 0 8 = ascii ''GOSCRIPT''"
    "uint_at 4 truncated_pack 8 = 2" "\<not> sections_fit truncated_pack"
    by (simp_all add: declared_eval)
  have b: "packageIndex (sample_toolchain 200) (str ''a'') = Some \<lparr>offset = 40, size_bytes = 200\<rparr>"
    "byteLength (sample_pack 200) < offset \<lparr>offset = 40, size_bytes = 200\<rparr> + size_bytes \<lparr>offset = 40, size_bytes = 200\<rparr>"
    "declared_compiler_size (sample_pack 200) = 1"
    by (simp_all add: sample_toolchain_def declared_eval)
  have c: "packageIndex far_toolchain (str ''a'') = Some \<lparr>offset = 9007199254741032, size_bytes = 2\<rparr>"
    "byteLength far_pack
       < offset \<lparr>offset = 9007199254741032, size_bytes = 2\<rparr> + size_bytes \<lparr>offset = 9007199254741032, size_bytes = 2\<rparr>"
    "declared_packages far_pack = [(ascii ''a'', 9007199254740993, 2)]"
    by (simp_all add: far_toolchain_def declared_eval Let_def)
  from section_overrun_rejected[of truncated_pack Some "sample_toolchain 200"] a
  have 1: "parseToolchain Some truncated_pack = Inl RangeError" by blast
  from section_overrun_rejected[of "sample_pack 200" Some "sample_toolchain 200"] sample_parse[of 200] b
  have 2: "length (compilerWasm (sample_toolchain 200)) = 1"
    "getPackage (sample_toolchain 200) (str ''a'') = Inl RangeError" by auto
  note f = section_overrun_rejected[of far_pack Some far_toolchain]
  have 3: "map_of (rev (index_of (declared_data_start far_pack) (declared_packages far_pack))) (str ''a'')
       = Some \<lparr>offset = 9007199254741032, size_bytes = 2\<rparr>"
    using f far_parse c(1) by simp
  have 4: "getPackage far_toolchain (str ''a'') = Inl RangeError"
    using f far_parse c(1,2) by blast
  show ?thesis using 1 2 3 4 c(3) sample_parse[of 200] far_parse by simp
qed

text \<open>
  Claim C4 as stated fails: a 57-byte pack whose only index entry declares 200 bytes at
  absolute offset 40 is accepted, and the entry is recorded unchanged.
\<close>

theorem unchecked_package_range_counterexample:
  "parseToolchain Some (sample_pack 200) = Inr (sample_toolchain 200)
   \<and> packageIndex (sample_toolchain 200) (str ''a'') = Some \<lparr>offset = 40, size_bytes = 200\<rparr>
   \<and> byteLength (sample_pack 200) = 57"
  by (simp add: pack_eval number_add_def to_number_def)

section \<open>Properties of the filesystem\<close>

subsection \<open>Shape of the normal forms\<close>

lemma split_no_sep: "x \<in> set (split sep s) \<Longrightarrow> sep \<notin> set x"
proof (induction s arbitrary: x)
  case Nil
  then show ?case by simp
next
  case (Cons c cs)
  then show ?case by (auto split: if_splits list.splits)
qed

lemma resolve_parts_subset:
  "set (resolve_parts acc parts) \<subseteq> set acc \<union> (set parts - {str ''..''})"
proof (induction parts arbitrary: acc)
  case Nil
  then show ?case by simp
next
  case (Cons part parts)
  show ?case
  proof (cases "part = str ''..''")
    case True
    have "set (butlast acc) \<subseteq> set acc" by (auto dest: in_set_butlastD)
    then show ?thesis using Cons.IH[of "butlast acc"] True by auto
  next
    case False
    then show ?thesis using Cons.IH[of "acc @ [part]"] by auto
  qed
qed

lemma sdk_normalize_shape:
  "\<exists>segs. sdk_normalize p = str ''/'' @ join (str ''/'') segs
      \<and> (\<forall>s\<in>set segs. s \<noteq> [] \<and> s \<noteq> str ''.'' \<and> s \<noteq> str ''..'' \<and> slash \<notin> set s)"
proof -
  define path1 where "path1 = (if \<not> startsWith p (str ''/'') then str ''/'' @ p else p)"
  define parts where "parts = filter (\<lambda>q. q \<noteq> [] \<and> q \<noteq> str ''.'') (split slash path1)"
  have n: "sdk_normalize p = str ''/'' @ join (str ''/'') (resolve_parts [] parts)"
    by (simp add: sdk_normalize_def path1_def parts_def Let_def)
  have "\<forall>s\<in>set (resolve_parts [] parts). s \<noteq> [] \<and> s \<noteq> str ''.'' \<and> s \<noteq> str ''..'' \<and> slash \<notin> set s"
  proof
    fix s assume "s \<in> set (resolve_parts [] parts)"
    then have "s \<in> set parts" "s \<noteq> str ''..''" using resolve_parts_subset[of "[]" parts] by auto
    then show "s \<noteq> [] \<and> s \<noteq> str ''.'' \<and> s \<noteq> str ''..'' \<and> slash \<notin> set s"
      using split_no_sep by (auto simp: parts_def)
  qed
  then show ?thesis using n by blast
qed

lemma collapse_hd: "\<exists>r. collapse_slashes (c # cs) = c # r"
  by (induction cs arbitrary: c) auto

lemma collapse_no_double: "no_double_slash (collapse_slashes s)"
proof (induction s rule: collapse_slashes.induct)
  case (3 c d cs)
  obtain r where r: "collapse_slashes (d # cs) = d # r" using collapse_hd by blast
  show ?case
  proof (cases "c = slash \<and> d = slash")
    case True
    then show ?thesis using 3 by simp
  next
    case False
    then have "no_double_slash (collapse_slashes (d # cs))" using 3 by simp
    then have "no_double_slash (c # d # r)" using False r by auto
    moreover have "collapse_slashes (c # d # cs) = c # d # r" using False r by auto
    ultimately show ?thesis by simp
  qed
qed auto

lemma normalizePath_shape:
  "startsWith (normalizePath p) (str ''/'') \<and> no_double_slash (normalizePath p)"
proof -
  have "\<exists>cs. (if \<not> startsWith p (str ''/'') then str ''/'' @ p else p) = slash # cs"
    by (cases p) (auto simp: startsWith_def str_def slash_def)
  then obtain cs where n: "normalizePath p = collapse_slashes (slash # cs)"
    by (auto simp: normalizePath_def)
  obtain r where "collapse_slashes (slash # cs) = slash # r" using collapse_hd by blast
  then have "startsWith (normalizePath p) (str ''/'')"
    using n by (simp add: startsWith_def str_def slash_def)
  then show ?thesis using n collapse_no_double[of "slash # cs"] by simp
qed

subsection \<open>The recursion of the SDK directory chain\<close>

lemma split_nonempty: "split sep s \<noteq> []"
  by (induction s) (auto split: list.splits)

lemma join_split: "join [sep] (split sep s) = s"
proof (induction s)
  case Nil
  then show ?case by simp
next
  case (Cons c cs)
  obtain x xs where x: "split sep cs = x # xs" using split_nonempty[of sep cs] by (cases "split sep cs") auto
  show ?case
  proof (cases "c = sep")
    case True
    then show ?thesis using Cons x by simp
  next
    case False
    then show ?thesis using Cons x by (cases xs) auto
  qed
qed

lemma join_butlast_shorter:
  "sep \<noteq> [] \<Longrightarrow> join sep xs \<noteq> [] \<Longrightarrow> length (join sep (butlast xs)) < length (join sep xs)"
proof (induction sep xs rule: join.induct)
  case (3 sep x y ys)
  show ?case
  proof (cases ys)
    case Nil
    then show ?thesis using 3 by simp
  next
    case (Cons z zs)
    then have "join sep (y # ys) \<noteq> []" using 3(2) by simp
    then have "length (join sep (butlast (y # ys))) < length (join sep (y # ys))" using 3 by simp
    moreover have "butlast (y # ys) \<noteq> []" using Cons by simp
    then obtain w ws where "butlast (y # ys) = w # ws" by (cases "butlast (y # ys)") auto
    ultimately show ?thesis by simp
  qed
qed auto

lemma sdk_dirname_shorter:
  "q \<noteq> [] \<Longrightarrow> \<not> length (sdk_dirname q) < length q \<Longrightarrow> sdk_dirname q = str ''/''"
proof -
  assume p: "q \<noteq> []" and n: "\<not> length (sdk_dirname q) < length q"
  have "join (str ''/'') (split slash q) = q"
    using join_split[of slash q] by (simp add: str_def slash_def)
  then have "length (join (str ''/'') (butlast (split slash q))) < length q"
    using join_butlast_shorter[of "str ''/''" "split slash q"] p by (simp add: str_def)
  then show ?thesis using n by (auto simp: sdk_dirname_def Let_def)
qed

lemma sdk_ensureDir_root: "sdk_ensureDir v (str ''/'') = v"
  by (subst sdk_ensureDir.simps) simp

text \<open>The recursion of \<open>_ensureDir\<close> as the source writes it.\<close>

lemma sdk_ensureDir_source:
  "sdk_ensureDir v q =
     (if q \<noteq> [] \<and> q \<noteq> str ''/''
      then sdk_ensureDir (v\<lparr>directories := insert q (directories v)\<rparr>) (sdk_dirname q)
      else v)"
proof (cases "q \<noteq> [] \<and> q \<noteq> str ''/'' \<and> \<not> length (sdk_dirname q) < length q")
  case True
  then have "sdk_dirname q = str ''/''" using sdk_dirname_shorter by blast
  then show ?thesis using True by (subst sdk_ensureDir.simps) (simp add: sdk_ensureDir_root)
next
  case False
  then show ?thesis by (subst sdk_ensureDir.simps) auto
qed

lemma sdk_ensureDir_files: "files (sdk_ensureDir v p) = files v"
proof (induction v p rule: sdk_ensureDir.induct)
  case (1 v path)
  show ?case
    by (subst sdk_ensureDir.simps) (use 1 in \<open>auto split: if_splits\<close>)
qed

subsection \<open>Writing and reading\<close>

lemma sdk_write_read:
  "sdk_normalize p1 = sdk_normalize p2 \<Longrightarrow> sdk_readFile (sdk_writeFile v p1 c) p2 = Inr c"
  by (simp add: sdk_readFile_def sdk_writeFile_def Let_def sdk_ensureDir_files)

lemma write_read:
  "normalizePath p1 = normalizePath p2 \<Longrightarrow> readFile (writeFile v p1 c) p2 = Inr c"
  by (simp add: readFile_def writeFile_def Let_def ensureDirectoryExists_def)

lemma exists_write: "normalizePath p1 = normalizePath p2 \<Longrightarrow> exists (writeFile v p1 c) p2"
  by (simp add: exists_def writeFile_def Let_def ensureDirectoryExists_def)

lemmas path_eval = sdk_normalize_def normalizePath_def startsWith_def str_def slash_def

text \<open>
  Claim C7, as the code has it. \<open>VirtualFS._normalize\<close> of the SDK yields \<open>/\<close> followed by
  segments joined with single slashes, none of them empty, \<open>.\<close>, \<open>..\<close> or containing a
  slash. \<open>VirtualFileSystem.normalizePath\<close> yields a path that starts with \<open>/\<close> and has no
  two slashes in a row; it leaves \<open>.\<close> and \<open>..\<close> segments where they are. In both classes,
  for paths with the same normal form, \<open>writeFile\<close> through one followed by \<open>readFile\<close>
  through the other returns the content written.
\<close>

theorem path_normalization:
  "(\<exists>segs. sdk_normalize p = str ''/'' @ join (str ''/'') segs
        \<and> (\<forall>s\<in>set segs. s \<noteq> [] \<and> s \<noteq> str ''.'' \<and> s \<noteq> str ''..'' \<and> slash \<notin> set s))
   \<and> startsWith (normalizePath p) (str ''/'') \<and> no_double_slash (normalizePath p)
   \<and> (sdk_normalize p1 = sdk_normalize p2 \<longrightarrow> sdk_readFile (sdk_writeFile v p1 c) p2 = Inr c)
   \<and> (normalizePath p1 = normalizePath p2 \<longrightarrow> readFile (writeFile v p1 c) p2 = Inr c)"
  using sdk_normalize_shape[of p] normalizePath_shape[of p] sdk_write_read[of p1 p2 v c]
    write_read[of p1 p2 v c]
  by blast

theorem path_normalization_witness:
  "sdk_normalize (str ''a//b/./../c/'') = str ''/a/c''
   \<and> normalizePath (str ''a//b/c'') = str ''/a/b/c''
   \<and> sdk_readFile (sdk_writeFile sdk_empty_vfs (str ''/tmp/../a/./x.go'') (Text (str ''package main'')))
        (str ''a//x.go'') = Inr (Text (str ''package main''))
   \<and> readFile (writeFile empty_vfs (str ''/tmp//x.go'') (Text (str ''package main'')))
        (str ''tmp/x.go'') = Inr (Text (str ''package main''))"
proof -
  have a: "sdk_normalize (str ''/tmp/../a/./x.go'') = sdk_normalize (str ''a//x.go'')"
    and b: "normalizePath (str ''/tmp//x.go'') = normalizePath (str ''tmp/x.go'')"
    and c: "sdk_normalize (str ''a//b/./../c/'') = str ''/a/c''"
    and d: "normalizePath (str ''a//b/c'') = str ''/a/b/c''"
    by (simp_all add: path_eval)
  from path_normalization[of "str ''a//b/./../c/''" "str ''/tmp/../a/./x.go''" "str ''a//x.go''"
      sdk_empty_vfs "Text (str ''package main'')"] a 
  have 1: "sdk_readFile (sdk_writeFile sdk_empty_vfs (str ''/tmp/../a/./x.go'') (Text (str ''package main'')))
        (str ''a//x.go'') = Inr (Text (str ''package main''))" by blast
  from path_normalization[of "str ''a//b/c''" "str ''/tmp//x.go''" "str ''tmp/x.go''"
      empty_vfs "Text (str ''package main'')"] b
  have 2: "readFile (writeFile empty_vfs (str ''/tmp//x.go'') (Text (str ''package main'')))
        (str ''tmp/x.go'') = Inr (Text (str ''package main''))" by blast
  show ?thesis using 1 2 c d by simp
qed

text \<open>
  Claim C7 as stated fails for \<open>VirtualFileSystem\<close>: \<open>/a/./b\<close> is its own normal form, so a
  file written there is not found under \<open>/a/b\<close>.
\<close>

theorem normalizePath_keeps_dot_counterexample:
  "normalizePath (str ''/a/./b'') = str ''/a/./b''
   \<and> readFile (writeFile empty_vfs (str ''/a/./b'') (Text (str ''x''))) (str ''/a/b'')
       = Inl (NotFound (str ''/a/b''))"
  by (simp add: path_eval readFile_def writeFile_def ensureDirectoryExists_def empty_vfs_def
      getDirectory_def Let_def)

subsection \<open>Normal forms are fixed points\<close>










section \<open>Properties of the filesystem shim\<close>

subsection \<open>Opening a file that does not exist\<close>










subsection \<open>Synchronous writes\<close>








section \<open>Properties of the source hash\<close>

lemma canonical_same_files:
  assumes "distinct (map fst a)" "distinct (map fst b)" "set a = set b"
  shows "canonical_text a = canonical_text b"
proof -
  have m: "map_of a = map_of b" using assms by (rule map_of_inject_set[THEN iffD2])
  then have j: "json_member a = json_member b" by (intro ext) (simp add: json_member_def)
  have "set (map fst a) = set (map fst b)" using assms(3) by simp
  then have "sort (map fst a) = sort (map fst b)"
    using assms(1,2) by (intro sorted_distinct_set_unique) simp_all
  then show ?thesis using j by (simp add: canonical_text_def json_stringify_def object_keys_def)
qed

lemma property_list_distinct: "distinct (acc @ ks) \<Longrightarrow> property_list acc ks = acc @ ks"
  by (induction ks arbitrary: acc) auto

lemma sorted_keys: "distinct (map fst a) \<Longrightarrow> map fst (sort_key fst a) = sort (map fst a)"
proof (rule sorted_distinct_set_unique)
  assume d: "distinct (map fst a)"
  show "sorted (map fst (sort_key fst a))" by (rule sorted_sort_key)
  show "distinct (map fst (sort_key fst a))" using d by (simp add: distinct_map)
  show "sorted (sort (map fst a))" by simp
  show "distinct (sort (map fst a))" using d by simp
  show "set (map fst (sort_key fst a)) = set (sort (map fst a))" by simp
qed

lemma members_of_sorted:
  assumes "distinct (map fst a)"
  shows "List.map_filter (json_member a) (sort (map fst a))
     = map (\<lambda>(k, v). quote_json k @ [58] @ quote_json v) (sort_key fst a)"
proof -
  have l: "json_member a k = Some (quote_json k @ [58] @ quote_json v)" if "(k, v) \<in> set a" for k v
    using that assms by (simp add: json_member_def)
  have "List.map_filter (json_member a) (map fst xs)
     = map (\<lambda>(k, v). quote_json k @ [58] @ quote_json v) xs" if "set xs \<subseteq> set a" for xs
    using that by (induction xs) (auto simp: l)
  from this[of "sort_key fst a"] show ?thesis using sorted_keys[OF assms] by simp
qed

lemma canonical_sorted:
  assumes "distinct (map fst a)"
  shows "canonical_text a = json_object_text (sort_key fst a)"
proof -
  have "property_list [] (sort (map fst a)) = sort (map fst a)"
    using assms by (simp add: property_list_distinct)
  then have "canonical_text a =
     (let partial = map (\<lambda>(k, v). quote_json k @ [58] @ quote_json v) (sort_key fst a)
      in if partial = [] then str ''{}'' else [123] @ join [44] partial @ [125])"
    using members_of_sorted[OF assms]
    by (simp add: canonical_text_def json_stringify_def object_keys_def)
  then show ?thesis by (simp add: json_object_text_def Let_def)
qed

lemmas hash_eval = canonical_text_def json_stringify_def json_member_def object_keys_def
  quote_json_def quote_unit_def unicode_escape_def hex_digit_def is_lead_surrogate_def
  is_trail_surrogate_def List.map_filter_def str_def

lemma canonical_text_example: "canonical_text [(str ''b'', str ''y''), (str ''a'', [10])]
    = [123, 34, 97, 34, 58, 34, 92, 110, 34, 44, 34, 98, 34, 58, 34, 121, 34, 125]"
  by (simp add: hash_eval)

lemma simpleHash_example: "simpleHash (str ''ab'') = str ''2e9''"
  by (simp add: simpleHash_def hash_step_def str_def to_base36.simps digit36_def)

text \<open>
  Claim C9, as the code has it. The hash depends only on the set of path-content pairs: two
  objects with the same pairs, in whatever key order, hash alike. The text that is hashed is
  the JSON text of the object with its members sorted by path, each path and each content
  a quoted JSON string; there is no length prefix, and the content is escaped, not copied.
\<close>

theorem source_hash_deterministic:
  "distinct (map fst a) \<and> distinct (map fst b) \<and> set a = set b \<longrightarrow>
     generateSourceHash a = generateSourceHash b
   \<and> canonical_text a = json_object_text (sort_key fst a)
   \<and> canonical_text b = canonical_text a
   \<and> generateSourceHash a = simpleHash (json_object_text (sort_key fst a))"
proof
  assume h: "distinct (map fst a) \<and> distinct (map fst b) \<and> set a = set b"
  then have "canonical_text a = canonical_text b" using canonical_same_files by blast
  then show "generateSourceHash a = generateSourceHash b
   \<and> canonical_text a = json_object_text (sort_key fst a)
   \<and> canonical_text b = canonical_text a
   \<and> generateSourceHash a = simpleHash (json_object_text (sort_key fst a))"
    using h canonical_sorted[of a] by (simp add: generateSourceHash_def)
qed

theorem source_hash_deterministic_witness:
  "generateSourceHash [(str ''b.go'', str ''y''), (str ''a.go'', str ''x'')]
     = generateSourceHash [(str ''a.go'', str ''x''), (str ''b.go'', str ''y'')]
   \<and> canonical_text [(str ''b.go'', str ''y''), (str ''a.go'', str ''x'')]
     = json_object_text [(str ''a.go'', str ''x''), (str ''b.go'', str ''y'')]"
proof -
  have h: "distinct (map fst [(str ''b.go'', str ''y''), (str ''a.go'', str ''x'')])
     \<and> distinct (map fst [(str ''a.go'', str ''x''), (str ''b.go'', str ''y'')])
     \<and> set [(str ''b.go'', str ''y''), (str ''a.go'', str ''x'')]
        = set [(str ''a.go'', str ''x''), (str ''b.go'', str ''y'')]"
    by (auto simp: str_def)
  have s: "sort_key fst [(str ''b.go'', str ''y''), (str ''a.go'', str ''x'')]
      = [(str ''a.go'', str ''x''), (str ''b.go'', str ''y'')]"
    by (simp add: str_def)
  from source_hash_deterministic[of "[(str ''b.go'', str ''y''), (str ''a.go'', str ''x'')]"
      "[(str ''a.go'', str ''x''), (str ''b.go'', str ''y'')]"] h
  have "generateSourceHash [(str ''b.go'', str ''y''), (str ''a.go'', str ''x'')]
     = generateSourceHash [(str ''a.go'', str ''x''), (str ''b.go'', str ''y'')]
   \<and> canonical_text [(str ''b.go'', str ''y''), (str ''a.go'', str ''x'')]
     = json_object_text (sort_key fst [(str ''b.go'', str ''y''), (str ''a.go'', str ''x'')])"
    by blast
  then show ?thesis unfolding s .
qed

text \<open>
  Claim C9 as stated fails in its canonical form: for one file \<open>a\<close> whose content is a
  single newline, the hashed text is \<open>{"a":"\<bsol>n"}\<close>; the content's code unit 10 does not
  occur in it, and nothing in it states a length.
\<close>

theorem canonical_form_is_json_counterexample:
  "canonical_text [(str ''a'', [10])] = [123, 34, 97, 34, 58, 34, 92, 110, 34, 125]
   \<and> 10 \<notin> set (canonical_text [(str ''a'', [10])])"
  by (simp add: hash_eval)

section \<open>Properties of the build driver\<close>

subsection \<open>Frames of the stages\<close>

lemma emit_frame [simp]:
  "compiledWasm (emit e s) = compiledWasm s" "instantiated (emit e s) = instantiated s"
  "cm_vfs (emit e s) = cm_vfs s" "status (emit e s) = status s"
  "compileWasmBytes (emit e s) = compileWasmBytes s" "linkWasmBytes (emit e s) = linkWasmBytes s"
  "filesToCompile (emit e s) = filesToCompile s"
  by (simp_all add: emit_def)

lemma enter_frame:
  "compiledWasm (enter en s fs) = compiledWasm s" "instantiated (enter en s fs) = instantiated s"
  by (simp_all add: enter_def loadCompiler_def Let_def split: prod.splits)

lemma enter_status: "enter en (s\<lparr>status := st\<rparr>) fs = enter en s fs"
  by (simp add: enter_def)

lemma enter_modules:
  "toolchain_load en (cm_vfs s) (compileWasmBytes s) (linkWasmBytes s) = (v, c, l) \<Longrightarrow>
     compileWasmBytes (enter en s fs) = c \<and> linkWasmBytes (enter en s fs) = l
     \<and> filesToCompile (enter en s fs) = fs"
  by (simp add: enter_def loadCompiler_def Let_def)

lemma stage_sources_frame:
  "compileWasmBytes (stage_sources en s fs) = compileWasmBytes s"
  "linkWasmBytes (stage_sources en s fs) = linkWasmBytes s"
  "filesToCompile (stage_sources en s fs) = filesToCompile s"
  "compiledWasm (stage_sources en s fs) = compiledWasm s"
  "instantiated (stage_sources en s fs) = instantiated s"
  by (simp_all add: stage_sources_def Let_def)

lemma cache_hit_result:
  "fst (cache_hit s c) = Inr (wasmBinary c)"
  "instantiated (snd (cache_hit s c)) = instantiated s"
  "compiledWasm (snd (cache_hit s c)) = compiledWasm s"
  "cm_vfs (snd (cache_hit s c)) = cm_vfs s"
  "status (snd (cache_hit s c)) = Complete"
  "events (snd (cache_hit s c)) = events s @ [StageUpdate 2 (str ''complete''),
      Progress 100 (str ''CACHED_BINARY_LOADED''), CompleteEvent (wasmBinary c) (cached_metadata c)]"
  by (simp_all add: cache_hit_def Let_def emit_def)

lemma publish_result:
  "publish en s h w = (Inr w', s') \<Longrightarrow>
     w' = w \<and> validateWasmBinary w \<and> (\<exists>c. compiledWasm s' (cache_key h) = Some c \<and> wasmBinary c = w)"
  by (auto simp: publish_def Let_def cacheCompiledWasm_def split: if_splits)

lemma publish_invalid:
  "\<not> validateWasmBinary w \<Longrightarrow>
     fst (publish en s h w) = Inl InvalidWasm \<and> status (snd (publish en s h w)) = Failed"
  by (simp add: publish_def Let_def)

lemma publish_valid: "validateWasmBinary w \<Longrightarrow> fst (publish en s h w) = Inr w"
  by (simp add: publish_def Let_def)

lemma take4: "4 \<le> length w \<Longrightarrow> take 4 w = [w ! 0, w ! 1, w ! 2, w ! 3]"
proof -
  assume a: "4 \<le> length w"
  then obtain a0 w1 where 0: "w = a0 # w1" by (cases w) auto
  then obtain a1 w2 where 1: "w1 = a1 # w2" using a by (cases w1) auto
  then obtain a2 w3 where 2: "w2 = a2 # w3" using a 0 by (cases w2) auto
  then obtain a3 w4 where 3: "w3 = a3 # w4" using a 0 1 by (cases w3) auto
  show ?thesis by (simp add: 0 1 2 3)
qed

lemma validate_iff: "validateWasmBinary w \<longleftrightarrow> 8 \<le> length w \<and> take 4 w = [0x00, 0x61, 0x73, 0x6d]"
proof (cases "length w < 8")
  case True
  then show ?thesis by (simp add: validateWasmBinary_def)
next
  case False
  then have "take 4 w = [w ! 0, w ! 1, w ! 2, w ! 3]" by (intro take4) simp
  then show ?thesis using False by (auto simp: validateWasmBinary_def)
qed

subsection \<open>The two ways through the pipeline\<close>

lemma compile_success_cached:
  assumes "compile en s fs = (Inr w, s')"
  shows "\<exists>c. compiledWasm s' (cache_key (generateSourceHash fs)) = Some c \<and> wasmBinary c = w"
proof (cases "getCachedWasm (enter en s fs) (generateSourceHash fs)")
  case None
  obtain w2 s2 where sc: "stage_compile en (stage_sources en (enter en s fs) fs) = (w2, s2)"
    by (cases "stage_compile en (stage_sources en (enter en s fs) fs)") auto
  then have "publish en s2 (generateSourceHash fs) w2 = (Inr w, s')"
    using assms None by (simp add: compile_def Let_def)
  then show ?thesis using publish_result by blast
next
  case (Some c)
  then have r: "cache_hit (enter en s fs) c = (Inr w, s')"
    using assms by (simp add: compile_def Let_def)
  then have "wasmBinary c = w" using cache_hit_result(1)[of "enter en s fs" c] by simp
  moreover have "compiledWasm s' = compiledWasm s"
    using r cache_hit_result(3)[of "enter en s fs" c] by (simp add: enter_frame)
  ultimately show ?thesis using Some by (auto simp: getCachedWasm_def enter_frame)
qed

lemma compile_hit:
  assumes "compiledWasm s (cache_key (generateSourceHash fs)) = Some c"
  shows "compile en s fs = cache_hit (enter en s fs) c"
  using assms by (simp add: compile_def Let_def getCachedWasm_def enter_frame)

lemma compile_miss:
  assumes "compiledWasm s (cache_key (generateSourceHash fs)) = None"
  shows "compile en s fs =
     (case stage_compile en (stage_sources en (enter en s fs) fs) of
        (w, s2) \<Rightarrow> publish en s2 (generateSourceHash fs) w)"
  using assms by (simp add: compile_def Let_def getCachedWasm_def enter_frame)

lemma compile_miss_result:
  fixes en :: env
  assumes "compiledWasm s (cache_key (generateSourceHash fs)) = None"
  defines "w \<equiv> fst (stage_compile en (stage_sources en (enter en s fs) fs))"
  shows "validateWasmBinary w \<Longrightarrow> fst (compile en s fs) = Inr w"
    and "\<not> validateWasmBinary w \<Longrightarrow>
           fst (compile en s fs) = Inl InvalidWasm \<and> status (snd (compile en s fs)) = Failed"
proof -
  obtain w2 s2 where sc: "stage_compile en (stage_sources en (enter en s fs) fs) = (w2, s2)"
    by (cases "stage_compile en (stage_sources en (enter en s fs) fs)") auto
  then have c: "compile en s fs = publish en s2 (generateSourceHash fs) w" "w2 = w"
    using compile_miss[OF assms(1), of en] by (simp_all add: w_def)
  show "validateWasmBinary w \<Longrightarrow> fst (compile en s fs) = Inr w"
    using c publish_valid by simp
  show "\<not> validateWasmBinary w \<Longrightarrow>
           fst (compile en s fs) = Inl InvalidWasm \<and> status (snd (compile en s fs)) = Failed"
    using c publish_invalid by simp
qed

lemma compile_ignores_status: "compile en (s\<lparr>status := st\<rparr>) fs = compile en s fs"
  by (simp add: compile_def enter_status)

lemma stage_compile_mock:
  "compileWasmBytes s = None \<Longrightarrow> fst (stage_compile en s) = generateMockWasm en"
  by (simp add: stage_compile_def compileToWasm_def)

subsection \<open>Runs of the sample environments\<close>

lemma idle_miss: "compiledWasm idle_cm (cache_key (generateSourceHash fs)) = None"
  by (simp add: idle_cm_def)

lemma first_build: "fst (compile no_toolchain idle_cm hello_go) = Inr wasm_header"
proof -
  have m: "compiledWasm idle_cm (cache_key (generateSourceHash hello_go)) = None"
    by (simp add: idle_cm_def)
  have "toolchain_load no_toolchain (cm_vfs idle_cm) (compileWasmBytes idle_cm) (linkWasmBytes idle_cm)
          = (cm_vfs idle_cm, None, None)"
    by (simp add: no_toolchain_def idle_cm_def)
  then have "compileWasmBytes (stage_sources no_toolchain (enter no_toolchain idle_cm hello_go) hello_go) = None"
    using enter_modules by (simp add: stage_sources_frame)
  then have w: "fst (stage_compile no_toolchain (stage_sources no_toolchain (enter no_toolchain idle_cm hello_go) hello_go))
      = wasm_header"
    using stage_compile_mock by (simp add: generateMockWasm_def no_toolchain_def)
  have v: "validateWasmBinary wasm_header" by (simp add: validateWasmBinary_def wasm_header_def)
  show ?thesis
    using compile_miss_result(1)[OF m, of no_toolchain] w v by simp
qed

lemma run_emitting:
  assumes "filesToCompile s \<noteq> []"
  shows "fst (runGoCompiler (emitting_toolchain out) c l s) = Some out"
proof -
  have n: "normalizePath (compile_argv ts ! 2) = normalizePath (str ''/tmp/main.o'')"
    "normalizePath (link_argv ! 2) = normalizePath (str ''/tmp/main.wasm'')" for ts
    by (simp_all add: compile_argv_def link_argv_def)
  have g: "go_run (emitting_toolchain out) = (\<lambda>m argv v. (writeFile v (argv ! 2) (Bytes out), True))"
    by (simp add: emitting_toolchain_def)
  show ?thesis
    using assms by (simp add: runGoCompiler_def read_output_def Let_def g exists_write[OF n(1)]
        exists_write[OF n(2)] write_read[OF n(2)])
qed

lemma emitting_produces:
  "fst (stage_compile (emitting_toolchain out)
          (stage_sources (emitting_toolchain out) (enter (emitting_toolchain out) idle_cm hello_go) hello_go))
     = out"
proof -
  have "toolchain_load (emitting_toolchain out) (cm_vfs idle_cm) (compileWasmBytes idle_cm) (linkWasmBytes idle_cm)
          = (cm_vfs idle_cm, Some [], Some [])"
    by (simp add: emitting_toolchain_def)
  from enter_modules[OF this, of hello_go]
  have e: "compileWasmBytes (stage_sources (emitting_toolchain out) (enter (emitting_toolchain out) idle_cm hello_go) hello_go) = Some []"
    "linkWasmBytes (stage_sources (emitting_toolchain out) (enter (emitting_toolchain out) idle_cm hello_go) hello_go) = Some []"
    "filesToCompile (stage_sources (emitting_toolchain out) (enter (emitting_toolchain out) idle_cm hello_go) hello_go) \<noteq> []"
    by (simp_all add: stage_sources_frame hello_go_def)
  define S where "S = stage_sources (emitting_toolchain out) (enter (emitting_toolchain out) idle_cm hello_go) hello_go"
  have "fst (runGoCompiler (emitting_toolchain out) [] [] (emit (StageUpdate 5 (str ''active'')) S)) = Some out"
    using e(3) by (intro run_emitting) (simp add: S_def)
  then have "fst (stage_compile (emitting_toolchain out) S) = out"
    using e(1,2) by (auto simp: stage_compile_def compileToWasm_def S_def split: prod.splits option.splits)
  then show ?thesis by (simp add: S_def)
qed

lemma version2_build: "fst (compile version2_toolchain idle_cm hello_go) = Inr version2_wasm"
proof -
  have v: "validateWasmBinary version2_wasm" by (simp add: validateWasmBinary_def version2_wasm_def)
  show ?thesis
    using compile_miss_result(1)[OF idle_miss, of "emitting_toolchain version2_wasm" hello_go]
      emitting_produces[of version2_wasm] v
    by (simp add: version2_toolchain_def)
qed

subsection \<open>The cache hit\<close>

text \<open>
  Claim C1. When \<open>compile\<close> has returned a binary for some source files, a second \<open>compile\<close>
  of the same files from the state it left, whatever the environment does then, returns the
  same bytes: they come from the cache entry found in the cache-check stage (stage 2 is
  completed, progress 100 and the completion event are emitted, nothing else happens after
  the lookup), and the number of toolchain modules instantiated does not change.
\<close>

theorem cache_hit_equivalence:
  "compile en s fs = (Inr w, s') \<longrightarrow>
     fst (compile en2 s' fs) = Inr w
   \<and> instantiated (snd (compile en2 s' fs)) = instantiated s'
   \<and> (\<exists>c. getCachedWasm (enter en2 s' fs) (generateSourceHash fs) = Some c \<and> wasmBinary c = w
          \<and> compile en2 s' fs = cache_hit (enter en2 s' fs) c
          \<and> events (snd (compile en2 s' fs)) = events (enter en2 s' fs) @
               [StageUpdate 2 (str ''complete''), Progress 100 (str ''CACHED_BINARY_LOADED''),
                CompleteEvent w (cached_metadata c)])"
proof
  assume a: "compile en s fs = (Inr w, s')"
  then obtain c where c: "compiledWasm s' (cache_key (generateSourceHash fs)) = Some c" "wasmBinary c = w"
    using compile_success_cached by blast
  note h = compile_hit[OF c(1), of en2]
  show "fst (compile en2 s' fs) = Inr w
   \<and> instantiated (snd (compile en2 s' fs)) = instantiated s'
   \<and> (\<exists>c. getCachedWasm (enter en2 s' fs) (generateSourceHash fs) = Some c \<and> wasmBinary c = w
          \<and> compile en2 s' fs = cache_hit (enter en2 s' fs) c
          \<and> events (snd (compile en2 s' fs)) = events (enter en2 s' fs) @
               [StageUpdate 2 (str ''complete''), Progress 100 (str ''CACHED_BINARY_LOADED''),
                CompleteEvent w (cached_metadata c)])"
    using c h cache_hit_result[of "enter en2 s' fs" c]
    by (auto simp: getCachedWasm_def enter_frame)
qed

theorem cache_hit_equivalence_witness:
  "fst (compile no_toolchain idle_cm hello_go) = Inr wasm_header
   \<and> fst (compile version2_toolchain (snd (compile no_toolchain idle_cm hello_go)) hello_go)
       = Inr wasm_header
   \<and> instantiated (snd (compile version2_toolchain (snd (compile no_toolchain idle_cm hello_go)) hello_go))
       = instantiated (snd (compile no_toolchain idle_cm hello_go))"
proof -
  have "compile no_toolchain idle_cm hello_go = (Inr wasm_header, snd (compile no_toolchain idle_cm hello_go))"
    using first_build by (simp add: prod_eq_iff)
  from cache_hit_equivalence[of no_toolchain idle_cm hello_go wasm_header
      "snd (compile no_toolchain idle_cm hello_go)" version2_toolchain] this
  show ?thesis using first_build by blast
qed

subsection \<open>Validation of the output\<close>

text \<open>
  Claim C5, as the code has it. When \<open>compile\<close> misses the cache, the binary the build
  produces is validated before it is returned: \<open>compile\<close> succeeds with it when it has at
  least eight bytes and begins with \<open>00 61 73 6D\<close>, and fails with the invalid-binary error
  (status \<open>'error'\<close>) otherwise. The four version bytes are not examined.
\<close>

theorem fresh_build_validated:
  "compiledWasm s (cache_key (generateSourceHash fs)) = None \<longrightarrow>
     (\<forall>w. fst (compile en s fs) = Inr w \<longrightarrow> 8 \<le> length w \<and> take 4 w = [0x00, 0x61, 0x73, 0x6d])
   \<and> (let w = fst (stage_compile en (stage_sources en (enter en s fs) fs)) in
        (8 \<le> length w \<and> take 4 w = [0x00, 0x61, 0x73, 0x6d] \<longrightarrow> fst (compile en s fs) = Inr w)
      \<and> (\<not> (8 \<le> length w \<and> take 4 w = [0x00, 0x61, 0x73, 0x6d]) \<longrightarrow>
            fst (compile en s fs) = Inl InvalidWasm \<and> status (snd (compile en s fs)) = Failed))"
proof (intro impI conjI allI)
  assume m: "compiledWasm s (cache_key (generateSourceHash fs)) = None"
  define w0 where "w0 = fst (stage_compile en (stage_sources en (enter en s fs) fs))"
  note r = compile_miss_result[OF m, of en, folded w0_def]
  show "let w = fst (stage_compile en (stage_sources en (enter en s fs) fs)) in
        (8 \<le> length w \<and> take 4 w = [0x00, 0x61, 0x73, 0x6d] \<longrightarrow> fst (compile en s fs) = Inr w)
      \<and> (\<not> (8 \<le> length w \<and> take 4 w = [0x00, 0x61, 0x73, 0x6d]) \<longrightarrow>
            fst (compile en s fs) = Inl InvalidWasm \<and> status (snd (compile en s fs)) = Failed)"
    unfolding Let_def w0_def[symmetric] using r validate_iff[of w0] by blast
  fix w
  assume "fst (compile en s fs) = Inr w"
  then have "w = w0 \<and> validateWasmBinary w0" using r by (cases "validateWasmBinary w0") auto
  then show "8 \<le> length w" "take 4 w = [0x00, 0x61, 0x73, 0x6d]" using validate_iff[of w0] by auto
qed

theorem fresh_build_validated_witness:
  "fst (compile no_toolchain idle_cm hello_go) = Inr wasm_header
   \<and> 8 \<le> length wasm_header \<and> take 4 wasm_header = [0x00, 0x61, 0x73, 0x6d]
   \<and> fst (compile (emitting_toolchain [1, 2, 3]) idle_cm hello_go) = Inl InvalidWasm
   \<and> status (snd (compile (emitting_toolchain [1, 2, 3]) idle_cm hello_go)) = Failed"
proof -
  from fresh_build_validated[of idle_cm hello_go no_toolchain] idle_miss[of hello_go] first_build
  have 1: "8 \<le> length wasm_header \<and> take 4 wasm_header = [0x00, 0x61, 0x73, 0x6d]" by simp
  from fresh_build_validated[of idle_cm hello_go "emitting_toolchain [1, 2, 3]"] idle_miss[of hello_go]
  have 2: "fst (compile (emitting_toolchain [1, 2, 3]) idle_cm hello_go) = Inl InvalidWasm
   \<and> status (snd (compile (emitting_toolchain [1, 2, 3]) idle_cm hello_go)) = Failed"
    by (simp add: emitting_produces Let_def)
  show ?thesis using 1 2 first_build by blast
qed

text \<open>
  Claim C5 as stated fails: a toolchain that emits the magic followed by version 2 gets its
  output returned as a success.
\<close>

theorem version_not_checked_counterexample:
  "fst (compile version2_toolchain idle_cm hello_go) = Inr version2_wasm
   \<and> take 8 version2_wasm \<noteq> [0x00, 0x61, 0x73, 0x6d, 0x01, 0x00, 0x00, 0x00]"
  using version2_build by (simp add: version2_wasm_def)

subsection \<open>Compiling while a compilation is in progress\<close>

text \<open>
  Claim C8, as the code has it. In the SDK driver, \<open>compile\<close> invoked while the \<open>compiling\<close>
  flag is set is rejected with the error \<open>Compilation already in progress\<close> and leaves the
  whole driver state, the filesystem included, as it was; the flag is set in the state in
  which a first \<open>compile\<close> waits for the compiler module. \<open>CompilationManager.compile\<close> has no
  such guard: the status it finds on entry has no influence on what it does.
\<close>

theorem busy_rejection:
  "(initialized s \<and> compiling s \<longrightarrow> sdk_compile en s src = (Inl Busy, s))
   \<and> (sdk_compile_begin s0 src0 = Inr (s1, fs, ps) \<longrightarrow>
        compiling s1 \<and> sdk_compile en s1 src = (Inl Busy, s1))
   \<and> compile en (m\<lparr>status := st\<rparr>) files0 = compile en m files0"
proof (intro conjI impI)
  assume "initialized s \<and> compiling s"
  then show "sdk_compile en s src = (Inl Busy, s)"
    by (simp add: sdk_compile_def sdk_compile_begin_def)
next
  assume "sdk_compile_begin s0 src0 = Inr (s1, fs, ps)"
  then have "initialized s1 \<and> compiling s1"
    by (auto simp: sdk_compile_begin_def Let_def split: if_splits)
  then show "compiling s1" "sdk_compile en s1 src = (Inl Busy, s1)"
    by (simp_all add: sdk_compile_def sdk_compile_begin_def)
next
  show "compile en (m\<lparr>status := st\<rparr>) files0 = compile en m files0"
    by (rule compile_ignores_status)
qed

theorem busy_rejection_witness:
  "(case sdk_compile_begin ready_sdk (Single (str ''package main'')) of
      Inl e \<Rightarrow> False
    | Inr (s1, fs, ps) \<Rightarrow>
        compiling s1 \<and> sdk_compile no_toolchain s1 (Single (str ''package main'')) = (Inl Busy, s1))
   \<and> sdk_compile no_toolchain (ready_sdk\<lparr>compiling := True\<rparr>) (Files hello_go)
       = (Inl Busy, ready_sdk\<lparr>compiling := True\<rparr>)"
proof -
  obtain s1 fs ps where b: "sdk_compile_begin ready_sdk (Single (str ''package main'')) = Inr (s1, fs, ps)"
    by (simp add: sdk_compile_begin_def ready_sdk_def Let_def)
  from busy_rejection[where s = s1 and en = no_toolchain and src = "Single (str ''package main'')"
      and ?s0.0 = ready_sdk and ?src0.0 = "Single (str ''package main'')" and ?s1.0 = s1
      and fs = fs and ps = ps] b
  have 1: "compiling s1 \<and> sdk_compile no_toolchain s1 (Single (str ''package main'')) = (Inl Busy, s1)"
    by simp
  from busy_rejection[where s = "ready_sdk\<lparr>compiling := True\<rparr>" and en = no_toolchain
      and src = "Files hello_go"]
  have 2: "sdk_compile no_toolchain (ready_sdk\<lparr>compiling := True\<rparr>) (Files hello_go)
       = (Inl Busy, ready_sdk\<lparr>compiling := True\<rparr>)"
    by (simp add: ready_sdk_def)
  show ?thesis using 1 2 b by simp
qed

text \<open>
  Claim C8 as stated fails for \<open>CompilationManager\<close>: started in the status \<open>'compiling'\<close>,
  \<open>compile\<close> runs its pipeline, returns a binary and has written it to the filesystem.
\<close>

theorem no_busy_guard_counterexample:
  "fst (compile no_toolchain (idle_cm\<lparr>status := Compiling\<rparr>) hello_go) = Inr wasm_header
   \<and> \<not> exists (cm_vfs (idle_cm\<lparr>status := Compiling\<rparr>)) (str ''/output/main.wasm'')
   \<and> exists (cm_vfs (snd (compile no_toolchain (idle_cm\<lparr>status := Compiling\<rparr>) hello_go)))
        (str ''/output/main.wasm'')"
proof -
  have 1: "fst (compile no_toolchain (idle_cm\<lparr>status := Compiling\<rparr>) hello_go) = Inr wasm_header"
    using first_build by (simp add: compile_ignores_status)
  have 2: "\<not> exists (cm_vfs (idle_cm\<lparr>status := Compiling\<rparr>)) (str ''/output/main.wasm'')"
    by (simp add: idle_cm_def exists_def empty_vfs_def)
  obtain w2 s2 where sc: "stage_compile no_toolchain
      (stage_sources no_toolchain (enter no_toolchain idle_cm hello_go) hello_go) = (w2, s2)"
    by (cases "stage_compile no_toolchain
      (stage_sources no_toolchain (enter no_toolchain idle_cm hello_go) hello_go)") auto
  then have c: "compile no_toolchain idle_cm hello_go = publish no_toolchain s2 (generateSourceHash hello_go) w2"
    using compile_miss[OF idle_miss, of no_toolchain hello_go] by simp
  then have "fst (publish no_toolchain s2 (generateSourceHash hello_go) w2) = Inr wasm_header"
    using first_build by simp
  then have "cm_vfs (snd (publish no_toolchain s2 (generateSourceHash hello_go) w2))
      = writeFile (cm_vfs s2) (str ''/output/main.wasm'') (Bytes w2)"
    by (auto simp: publish_def Let_def emit_def cacheCompiledWasm_def split: if_splits)
  then have "exists (cm_vfs (snd (compile no_toolchain idle_cm hello_go))) (str ''/output/main.wasm'')"
    using c by (simp add: exists_write)
  then show ?thesis using 1 2 by (simp add: compile_ignores_status)
qed

end
